theory Spec2Isabelle
  imports Complex_Main
begin

section \<open>Vectors of shape (3,)\<close>

text \<open>
  The simulator stores positions, velocities and accelerations as numpy arrays of
  shape (3,) holding 64-bit floats. The embedding takes the components as real numbers:
  every statement below is about the arithmetic the code writes down, evaluated exactly,
  and says nothing about rounding. Indices 0, 1, 2 of the array are the selectors
  \<open>c0\<close>, \<open>c1\<close>, \<open>c2\<close>.
\<close>

datatype vec3 = Vec3 (c0: real) (c1: real) (c2: real)

instantiation vec3 :: ab_group_add
begin

definition zero_vec3 :: vec3 where
  "zero_vec3 = Vec3 0 0 0"

definition plus_vec3 :: "vec3 \<Rightarrow> vec3 \<Rightarrow> vec3" where
  "plus_vec3 u v = Vec3 (c0 u + c0 v) (c1 u + c1 v) (c2 u + c2 v)"

definition uminus_vec3 :: "vec3 \<Rightarrow> vec3" where
  "uminus_vec3 u = Vec3 (- c0 u) (- c1 u) (- c2 u)"

definition minus_vec3 :: "vec3 \<Rightarrow> vec3 \<Rightarrow> vec3" where
  "minus_vec3 u v = Vec3 (c0 u - c0 v) (c1 u - c1 v) (c2 u - c2 v)"

instance
  by standard (simp_all add: zero_vec3_def plus_vec3_def uminus_vec3_def minus_vec3_def)

end

text \<open>\<open>s * v\<close> for a scalar \<open>s\<close> and an array \<open>v\<close>.\<close>

definition smult :: "real \<Rightarrow> vec3 \<Rightarrow> vec3" where
  "smult s v = Vec3 (s * c0 v) (s * c1 v) (s * c2 v)"

text \<open>\<open>np.dot\<close>, \<open>np.cross\<close> and \<open>np.linalg.norm\<close> on arrays of shape (3,).\<close>

definition dot :: "vec3 \<Rightarrow> vec3 \<Rightarrow> real" where
  "dot u v = c0 u * c0 v + c1 u * c1 v + c2 u * c2 v"

definition cross :: "vec3 \<Rightarrow> vec3 \<Rightarrow> vec3" where
  "cross u v = Vec3 (c1 u * c2 v - c2 u * c1 v)
                    (c2 u * c0 v - c0 u * c2 v)
                    (c0 u * c1 v - c1 u * c0 v)"

definition norm3 :: "vec3 \<Rightarrow> real" where
  "norm3 v = sqrt (dot v v)"

section \<open>Bodies and constants\<close>

text \<open>
  \<open>model/body.py\<close>: class \<open>Body\<close>. Each body owns its three arrays (the constructor
  copies what it is given), so a list of bodies is a list of values; the in-place updates
  of the source become functions from the list to the updated list.
\<close>

record body =
  name :: string
  mass :: real
  radius :: real
  pos :: vec3
  vel :: vec3
  acc :: vec3
  color :: "real list"
  trail :: "vec3 list"

text \<open>\<open>constants.py\<close>.\<close>

definition G :: real where
  "G = 4 * pi\<^sup>2"

definition EPS_ACCEL :: real where
  "EPS_ACCEL = 1 / 100000"

definition AU_IN_METERS :: real where
  "AU_IN_METERS = 149597870700"

definition SECONDS_PER_YEAR :: real where
  "SECONDS_PER_YEAR = 86400 * (36525 / 100)"

definition C_SI :: real where
  "C_SI = 299792458"

definition C_AU_PER_YR :: real where
  "C_AU_PER_YR = C_SI * SECONDS_PER_YEAR / AU_IN_METERS"

section \<open>Newtonian accelerations (physics/nbody.py)\<close>

text \<open>
  The body of the inner loop of \<open>compute_accelerations\<close> for one pair \<open>i < j\<close>:
  the separation, the softened distance, and the two updates of \<open>acc\<close>. The divisor
  \<open>dist2 * dist\<close> is positive whatever the bodies are (lemma \<open>softened_divisor_pos\<close>).
\<close>

definition pair_update :: "nat \<Rightarrow> nat \<Rightarrow> body list \<Rightarrow> body list" where
  "pair_update i j bodies =
     (let rij = pos (bodies ! j) - pos (bodies ! i);
          dist2 = dot rij rij + EPS_ACCEL\<^sup>2;
          dist = sqrt dist2;
          inv_r3 = 1 / (dist2 * dist);
          ai = smult inv_r3 (smult (G * mass (bodies ! j)) rij);
          aj = smult inv_r3 (smult (- G * mass (bodies ! i)) rij);
          bodies1 = bodies[i := (bodies ! i)\<lparr>acc := acc (bodies ! i) + ai\<rparr>]
      in bodies1[j := (bodies1 ! j)\<lparr>acc := acc (bodies1 ! j) + aj\<rparr>])"

text \<open>
  \<open>compute_accelerations\<close>: every \<open>acc\<close> is set to zero, then the double loop
  \<open>for i in range(n): for j in range(i + 1, n)\<close> runs \<open>pair_update\<close>, with
  \<open>n = len(bodies)\<close> read once at entry.
\<close>

definition reset_acc :: "body list \<Rightarrow> body list" where
  "reset_acc bodies = map (\<lambda>b. b\<lparr>acc := 0\<rparr>) bodies"

definition pair_loop :: "nat \<Rightarrow> body list \<Rightarrow> body list" where
  "pair_loop n bodies =
     fold (\<lambda>i bs. fold (\<lambda>j. pair_update i j) [Suc i..<n] bs) [0..<n] bodies"

definition compute_accelerations :: "body list \<Rightarrow> body list" where
  "compute_accelerations bodies = pair_loop (length bodies) (reset_acc bodies)"

section \<open>Outcomes of fallible operations\<close>

text \<open>
  \<open>IndexError\<close>, \<open>ZeroDivisionError\<close> and \<open>ValueError\<close> are the Python exceptions of
  the same names. \<open>NonFinite\<close> is not an exception: dividing a numpy float64 by zero (and
  \<open>np.sqrt\<close> of a negative number) raises nothing, it emits a RuntimeWarning and yields
  \<open>inf\<close> or \<open>nan\<close>. Those are not real numbers, so the embedding records the first such
  operation and stops there.
\<close>

datatype fault = IndexError | ZeroDivisionError | ValueError | NonFinite

definition bind_fault :: "fault + 'a \<Rightarrow> ('a \<Rightarrow> fault + 'b) \<Rightarrow> fault + 'b" where
  "bind_fault r f = (case r of Inl err \<Rightarrow> Inl err | Inr v \<Rightarrow> f v)"

text \<open>Division where an operand is a numpy float64.\<close>

definition np_divide :: "real \<Rightarrow> real \<Rightarrow> fault + real" where
  "np_divide a b = (if b = 0 then Inl NonFinite else Inr (a / b))"

text \<open>Division of two Python floats.\<close>

definition py_divide :: "real \<Rightarrow> real \<Rightarrow> fault + real" where
  "py_divide a b = (if b = 0 then Inl ZeroDivisionError else Inr (a / b))"

text \<open>\<open>np.sqrt\<close>, \<open>math.sqrt\<close>, \<open>math.acos\<close>, \<open>math.atan2\<close> and \<open>np.mod\<close> on reals.\<close>

definition np_sqrt :: "real \<Rightarrow> fault + real" where
  "np_sqrt x = (if x < 0 then Inl NonFinite else Inr (sqrt x))"

definition math_sqrt :: "real \<Rightarrow> fault + real" where
  "math_sqrt x = (if x < 0 then Inl ValueError else Inr (sqrt x))"

definition math_acos :: "real \<Rightarrow> fault + real" where
  "math_acos x = (if x < - 1 \<or> 1 < x then Inl ValueError else Inr (arccos x))"

definition math_atan2 :: "real \<Rightarrow> real \<Rightarrow> real" where
  "math_atan2 y x =
     (if 0 < x then arctan (y / x)
      else if x < 0 then (if 0 \<le> y then arctan (y / x) + pi else arctan (y / x) - pi)
      else if 0 < y then pi / 2
      else if y < 0 then - pi / 2
      else 0)"

definition np_mod :: "real \<Rightarrow> real \<Rightarrow> real" where
  "np_mod x y = x - y * of_int \<lfloor>x / y\<rfloor>"

text \<open>
  \<open>math.tan\<close>. Away from its poles it is the real tangent. At a pole the real tangent has
  no value, and no float is a pole: the float argument lies beside it and its tangent is
  finite and huge (\<open>math.tan(math.pi/2)\<close> is about \<open>1.6e16\<close>). For an argument in
  \<open>[-\<pi>/2, \<pi>/2]\<close> the float lies on the inner side of the pole (\<open>math.pi/2\<close> is below
  \<open>\<pi>/2\<close>), where the tangent has the sign of the sine; the embedding takes the infinity
  of that sign. \<open>math.atan2\<close> of an infinite first and a finite second argument is
  \<open>\<plusminus>\<pi>/2\<close>.
\<close>

datatype tangent = Finite_tan real | Plus_inf | Minus_inf

definition math_tan :: "real \<Rightarrow> tangent" where
  "math_tan x =
     (if cos x = 0 then (if 0 < sin x then Plus_inf else Minus_inf)
      else Finite_tan (tan x))"

definition math_atan2_ext :: "tangent \<Rightarrow> real \<Rightarrow> real" where
  "math_atan2_ext y x =
     (case y of
        Finite_tan t \<Rightarrow> math_atan2 t x
      | Plus_inf \<Rightarrow> pi / 2
      | Minus_inf \<Rightarrow> - pi / 2)"

section \<open>Post-Newtonian correction (physics/pn1.py)\<close>

text \<open>
  The body of the loop of \<open>compute_pn_accelerations\<close> for one body \<open>b\<close>, with the
  central body \<open>sun\<close> and its mass \<open>M\<close>. The divisors \<open>r\<close> and \<open>C_AU_PER_YR**2 * r**3\<close>
  are positive whatever the bodies are (lemma \<open>pn_divisors_pos\<close>).
\<close>

definition pn_correction :: "body \<Rightarrow> real \<Rightarrow> body \<Rightarrow> vec3" where
  "pn_correction sun M b =
     (let r_vec = pos b - pos sun;
          v_vec = vel b - vel sun;
          r2 = dot r_vec r_vec + EPS_ACCEL\<^sup>2;
          r = sqrt r2;
          v2 = dot v_vec v_vec;
          rv = dot r_vec v_vec;
          factor = G * M / (C_AU_PER_YR\<^sup>2 * r ^ 3)
      in smult factor (smult (4 * G * M / r - v2) r_vec + smult (4 * rv) v_vec))"

text \<open>
  \<open>compute_pn_accelerations\<close>: \<open>bodies[0]\<close> raises IndexError on the empty list, before
  anything is written; otherwise the loop over \<open>bodies[1:]\<close> adds the correction to each
  \<open>acc\<close>. The loop reads \<open>sun.pos\<close>, \<open>sun.vel\<close> and \<open>sun.mass\<close>, which it never writes.
\<close>

definition compute_pn_accelerations :: "body list \<Rightarrow> fault + body list" where
  "compute_pn_accelerations bodies =
     (if bodies = [] then Inl IndexError
      else
        let sun = bodies ! 0;
            M = mass sun
        in Inr (take 1 bodies @
                map (\<lambda>b. b\<lparr>acc := acc b + pn_correction sun M b\<rparr>) (drop 1 bodies)))"

section \<open>The velocity-Verlet step (physics/nbody.py)\<close>

text \<open>The loops \<open>b.vel += 0.5 * b.acc * dt\<close> and \<open>b.pos += b.vel * dt\<close>.\<close>

definition half_kick :: "real \<Rightarrow> body list \<Rightarrow> body list" where
  "half_kick dt bodies = map (\<lambda>b. b\<lparr>vel := vel b + smult dt (smult (1 / 2) (acc b))\<rparr>) bodies"

definition drift :: "real \<Rightarrow> body list \<Rightarrow> body list" where
  "drift dt bodies = map (\<lambda>b. b\<lparr>pos := pos b + smult dt (vel b)\<rparr>) bodies"

text \<open>
  \<open>step_system\<close> updates the bodies in place and returns nothing. The result here is the
  exception that left the call, if any, and the bodies as the call leaves them.
\<close>

definition step_system :: "body list \<Rightarrow> real \<Rightarrow> bool \<Rightarrow> fault option \<times> body list" where
  "step_system bodies dt use_relativity =
     (let bodies1 = half_kick dt bodies;
          bodies2 = drift dt bodies1;
          bodies3 = compute_accelerations bodies2
      in if use_relativity then
           (case compute_pn_accelerations bodies3 of
              Inl err \<Rightarrow> (Some err, bodies3)
            | Inr bodies4 \<Rightarrow> (None, half_kick dt bodies4))
         else (None, half_kick dt bodies3))"

section \<open>Diagnostics (physics/diagnostics.py)\<close>

text \<open>The kinetic loop of \<open>total_energy\<close>.\<close>

definition kinetic_energy :: "body list \<Rightarrow> real" where
  "kinetic_energy bodies =
     fold (\<lambda>b E_kin. E_kin + 1 / 2 * mass b * dot (vel b) (vel b)) bodies 0"

text \<open>
  The body of the inner potential loop for one pair \<open>i < j\<close>; \<open>dist\<close> is a numpy float64,
  so the division is numpy's.
\<close>

definition pot_step :: "body list \<Rightarrow> nat \<Rightarrow> nat \<Rightarrow> fault + real \<Rightarrow> fault + real" where
  "pot_step bodies i j E_pot =
     (let rij = pos (bodies ! j) - pos (bodies ! i);
          dist = norm3 rij
      in if dist > 0 then
           bind_fault E_pot (\<lambda>E.
           bind_fault (np_divide (G * mass (bodies ! i) * mass (bodies ! j)) dist) (\<lambda>q.
           Inr (E - q)))
         else E_pot)"

definition potential_energy :: "body list \<Rightarrow> fault + real" where
  "potential_energy bodies =
     (let n = length bodies
      in fold (\<lambda>i E. fold (\<lambda>j. pot_step bodies i j) [Suc i..<n] E) [0..<n] (Inr 0))"

definition total_energy :: "body list \<Rightarrow> fault + real" where
  "total_energy bodies =
     (let E_kin = kinetic_energy bodies
      in bind_fault (potential_energy bodies) (\<lambda>E_pot. Inr (E_kin + E_pot)))"

section \<open>Orbital elements (physics/elements.py)\<close>

text \<open>
  \<open>solve_kepler\<close>: the mean anomaly is wrapped into \<open>[0, 2\<pi>)\<close>, the seed depends on the
  eccentricity, and the loop leaves at the first step smaller than \<open>tol\<close>. The first
  argument of \<open>kepler_loop\<close> is the number of iterations still allowed. \<open>f\<close> is a numpy
  float64 (it contains the wrapped \<open>M\<close>), so the division is numpy's.
\<close>

fun kepler_loop :: "nat \<Rightarrow> real \<Rightarrow> real \<Rightarrow> real \<Rightarrow> real \<Rightarrow> fault + real" where
  "kepler_loop 0 M e tol E = Inr E"
| "kepler_loop (Suc k) M e tol E =
     (let f = E - e * sin E - M;
          fprime = 1 - e * cos E
      in bind_fault (np_divide (- f) fprime) (\<lambda>dE.
         let E' = E + dE
         in if \<bar>dE\<bar> < tol then Inr E' else kepler_loop k M e tol E'))"

definition solve_kepler :: "real \<Rightarrow> real \<Rightarrow> real \<Rightarrow> nat \<Rightarrow> fault + real" where
  "solve_kepler M e tol max_iter =
     (let M' = np_mod M (2 * pi);
          E = (if e < 8 / 10 then M' else pi)
      in kepler_loop max_iter M' e tol E)"

text \<open>
  \<open>elements_to_state\<close> does not call \<open>solve_kepler\<close>: it has its own loop, ten Newton
  steps from \<open>E = M\<close>, written with the two local functions \<open>kepler\<close> and
  \<open>kepler_prime\<close>. \<open>np.sin\<close> and \<open>np.cos\<close> return numpy float64, so the divisions by
  \<open>kepler_prime\<close> and by \<open>1 - e*cos(E)\<close> are numpy's; \<open>mu / a**3\<close> divides two Python
  floats.
\<close>

definition kepler :: "real \<Rightarrow> real \<Rightarrow> real \<Rightarrow> real" where
  "kepler E M e = E - e * sin E - M"

definition kepler_prime :: "real \<Rightarrow> real \<Rightarrow> real" where
  "kepler_prime E e = 1 - e * cos E"

fun newton_loop :: "nat \<Rightarrow> real \<Rightarrow> real \<Rightarrow> real \<Rightarrow> fault + real" where
  "newton_loop 0 M e E = Inr E"
| "newton_loop (Suc k) M e E =
     bind_fault (np_divide (kepler E M e) (kepler_prime E e)) (\<lambda>q.
     newton_loop k M e (E - q))"

text \<open>\<open>R @ u\<close> for a 3 by 3 matrix given by its rows.\<close>

definition matvec :: "vec3 \<times> vec3 \<times> vec3 \<Rightarrow> vec3 \<Rightarrow> vec3" where
  "matvec R u = (case R of (row0, row1, row2) \<Rightarrow> Vec3 (dot row0 u) (dot row1 u) (dot row2 u))"

definition elements_to_state ::
  "real \<Rightarrow> real \<Rightarrow> real \<Rightarrow> real \<Rightarrow> real \<Rightarrow> real \<Rightarrow> real \<Rightarrow> fault + (vec3 \<times> vec3)" where
  "elements_to_state a e i Omega omega M mu =
     bind_fault (newton_loop 10 M e M) (\<lambda>E.
     let x_prime = a * (cos E - e)
     in bind_fault (np_sqrt (1 - e\<^sup>2)) (\<lambda>root.
     let y_prime = a * root * sin E;
         r_orb = Vec3 x_prime y_prime 0
     in bind_fault (py_divide mu (a ^ 3)) (\<lambda>mu_a3.
     bind_fault (np_sqrt mu_a3) (\<lambda>n.
     bind_fault (np_divide (- a * n * sin E) (1 - e * cos E)) (\<lambda>vx_prime.
     bind_fault (np_divide (a * n * root * cos E) (1 - e * cos E)) (\<lambda>vy_prime.
     let v_orb = Vec3 vx_prime vy_prime 0;
         cosO = cos Omega; sinO = sin Omega;
         cosi = cos i; sini = sin i;
         cosw = cos omega; sinw = sin omega;
         R = (Vec3 (cosO * cosw - sinO * sinw * cosi) (- cosO * sinw - sinO * cosw * cosi) (sinO * sini),
              Vec3 (sinO * cosw + cosO * sinw * cosi) (- sinO * sinw + cosO * cosw * cosi) (- cosO * sini),
              Vec3 (sinw * sini) (cosw * sini) cosi);
         r = matvec R r_orb;
         v = matvec R v_orb
     in Inr (r, v)))))))"

text \<open>
  \<open>state_to_elements\<close>, in the order the source evaluates. \<open>rmag\<close>, \<open>vmag\<close>, \<open>hmag\<close>,
  \<open>Nmag\<close> and \<open>e\<close> are numpy float64 (results of \<open>np.linalg.norm\<close>), so a division with
  one of them is numpy's; \<open>1/mu\<close> divides Python numbers. The argument of \<open>math.tan\<close> is
  \<open>nu / 2\<close> with \<open>nu\<close> a result of \<open>math.atan2\<close>, so it lies in \<open>(-\<pi>/2, \<pi>/2]\<close>; its only
  pole there is \<open>nu = \<pi>\<close>, where the code gets \<open>E = \<pi>\<close>.
\<close>

definition state_to_elements ::
  "vec3 \<Rightarrow> vec3 \<Rightarrow> real \<Rightarrow> fault + (real \<times> real \<times> real \<times> real \<times> real \<times> real)" where
  "state_to_elements r v mu =
     (let rmag = norm3 r;
          vmag = norm3 v;
          h = cross r v;
          hmag = norm3 h
      in bind_fault (np_divide (c2 h) hmag) (\<lambda>cos_i.
         bind_fault (math_acos cos_i) (\<lambda>i.
         let K = Vec3 0 0 1;
             N = cross K h;
             Nmag = norm3 N
         in bind_fault (py_divide 1 mu) (\<lambda>inv_mu.
         bind_fault (np_divide mu rmag) (\<lambda>mu_r.
         let e_vec = smult inv_mu (smult (vmag\<^sup>2 - mu_r) r - smult (dot r v) v);
             e = norm3 e_vec
         in bind_fault (np_divide 2 rmag) (\<lambda>two_r.
         bind_fault (np_divide (vmag\<^sup>2) mu) (\<lambda>v2_mu.
         bind_fault (np_divide 1 (two_r - v2_mu)) (\<lambda>a.
         let Omega = (if Nmag \<noteq> 0 then math_atan2 (c1 N) (c0 N) else 0)
         in bind_fault
              (if Nmag \<noteq> 0 \<and> e > 1 / 10 ^ 10 then
                 bind_fault (np_divide (dot (cross N e_vec) h) hmag) (\<lambda>y.
                 bind_fault (np_divide (dot N e_vec) Nmag) (\<lambda>x.
                 Inr (math_atan2 y x)))
               else Inr 0) (\<lambda>omega.
         bind_fault
              (if e > 1 / 10 ^ 10 then
                 bind_fault (np_divide (dot (cross e_vec r) h) hmag) (\<lambda>y.
                 bind_fault (np_divide (dot e_vec r) (e * rmag)) (\<lambda>x.
                 Inr (math_atan2 y x)))
               else Inr (math_atan2 (c1 r) (c0 r))) (\<lambda>nu.
         bind_fault (np_divide (1 + e) (1 - e)) (\<lambda>ratio.
         bind_fault (math_sqrt ratio) (\<lambda>root.
         let E = 2 * math_atan2_ext (math_tan (nu / 2)) root;
             M = E - e * sin E
         in Inr (a, e, i, Omega, omega, M)))))))))))))"

section \<open>The two-body test system (model/system.py)\<close>

text \<open>\<open>create_test_system\<close>: the Sun at rest at the origin and the Earth on a circular orbit.\<close>

definition test_sun :: body where
  "test_sun = \<lparr>name = ''Sun'', mass = 1, radius = 465 / 100000, pos = Vec3 0 0 0,
     vel = Vec3 0 0 0, acc = Vec3 0 0 0, color = [1, 1, 0], trail = []\<rparr>"

definition test_earth :: body where
  "test_earth = \<lparr>name = ''Earth'', mass = 3003 / 1000000000, radius = 426 / 10000000,
     pos = Vec3 1 0 0, vel = Vec3 0 (sqrt (G * 1 / 1)) 0, acc = Vec3 0 0 0,
     color = [2 / 10, 4 / 10, 1], trail = []\<rparr>"

section \<open>The quantities the statements are about\<close>

text \<open>
  The acceleration of body \<open>bi\<close> due to body \<open>bj\<close>,
  \<open>G m\<^sub>j (pos\<^sub>j - pos\<^sub>i) / (|pos\<^sub>j - pos\<^sub>i|\<^sup>2 + \<epsilon>\<^sup>2)\<^bsup>3/2\<^esup>\<close>, and its sum over the other bodies.
\<close>

definition newtonian_term :: "body \<Rightarrow> body \<Rightarrow> vec3" where
  "newtonian_term bi bj =
     smult (G * mass bj / (dot (pos bj - pos bi) (pos bj - pos bi) + EPS_ACCEL\<^sup>2) powr (3 / 2))
           (pos bj - pos bi)"

definition newtonian_accel :: "body list \<Rightarrow> nat \<Rightarrow> vec3" where
  "newtonian_accel bodies i =
     (\<Sum>j\<in>{..<length bodies} - {i}. newtonian_term (bodies ! i) (bodies ! j))"

text \<open>
  The post-Newtonian term of body \<open>b\<close> relative to the central body \<open>sun\<close>,
  \<open>(G M / (c\<^sup>2 r\<^sup>3)) ((4 G M / r - v\<^sup>2) r_vec + 4 (r_vec \<cdot> v_vec) v_vec)\<close> with
  \<open>r\<^sup>2 = |r_vec|\<^sup>2 + \<epsilon>\<^sup>2\<close>.
\<close>

definition pn_term :: "body \<Rightarrow> body \<Rightarrow> vec3" where
  "pn_term sun b =
     smult (G * mass sun / (C_AU_PER_YR\<^sup>2 * (sqrt (dot (pos b - pos sun) (pos b - pos sun) + EPS_ACCEL\<^sup>2)) ^ 3))
       (smult (4 * G * mass sun / sqrt (dot (pos b - pos sun) (pos b - pos sun) + EPS_ACCEL\<^sup>2)
                 - dot (vel b - vel sun) (vel b - vel sun)) (pos b - pos sun)
        + smult (4 * dot (pos b - pos sun) (vel b - vel sun)) (vel b - vel sun))"

text \<open>Step 3 of the integrator: the accelerations of a body list, with or without the correction.\<close>

definition new_accelerations :: "bool \<Rightarrow> body list \<Rightarrow> body list" where
  "new_accelerations use_relativity bodies =
     (if use_relativity then
        (case compute_pn_accelerations (compute_accelerations bodies) of
           Inl err \<Rightarrow> compute_accelerations bodies
         | Inr bodies' \<Rightarrow> bodies')
      else compute_accelerations bodies)"

text \<open>\<open>N\<close> calls of \<open>step_system\<close> with the correction off, as a driver loop makes them.\<close>

fun run_steps :: "nat \<Rightarrow> real \<Rightarrow> body list \<Rightarrow> body list" where
  "run_steps 0 dt bodies = bodies"
| "run_steps (Suc N) dt bodies = run_steps N dt (snd (step_system bodies dt False))"

text \<open>
  The pairs \<open>(i, j)\<close> in the order the double loops visit them, and what one visit adds to
  the acceleration of body \<open>k\<close>.
\<close>

definition pairs :: "nat \<Rightarrow> (nat \<times> nat) list" where
  "pairs n = concat (map (\<lambda>i. map (Pair i) [Suc i..<n]) [0..<n])"

definition code_term :: "body \<Rightarrow> body \<Rightarrow> vec3" where
  "code_term bi bj =
     (let rij = pos bj - pos bi;
          dist2 = dot rij rij + EPS_ACCEL\<^sup>2
      in smult (1 / (dist2 * sqrt dist2)) (smult (G * mass bj) rij))"

definition contrib :: "body list \<Rightarrow> nat \<Rightarrow> nat \<times> nat \<Rightarrow> vec3" where
  "contrib bs k p =
     (if k = fst p then code_term (bs ! fst p) (bs ! snd p)
      else if k = snd p then code_term (bs ! snd p) (bs ! fst p)
      else 0)"

text \<open>What the visit of the pair \<open>p = (i, j)\<close> subtracts from \<open>E_pot\<close> in \<open>total_energy\<close>.\<close>

definition pot_term :: "body list \<Rightarrow> nat \<times> nat \<Rightarrow> real" where
  "pot_term bodies p =
     (if pos (bodies ! fst p) = pos (bodies ! snd p) then 0
      else G * mass (bodies ! fst p) * mass (bodies ! snd p)
             / norm3 (pos (bodies ! fst p) - pos (bodies ! snd p)))"

section \<open>Binary64 arithmetic\<close>

text \<open>
  Python floats and numpy float64 are IEEE 754 binary64 numbers: the result of an operation
  is the exact result rounded to 53 significant bits, to the nearest, ties to the even
  mantissa. \<open>fl64\<close> is that rounding for results in the normal range (no overflow and no
  subnormal numbers, which the values below stay away from).
\<close>

definition round_half_even :: "real \<Rightarrow> int" where
  "round_half_even y =
     (let n = \<lfloor>y\<rfloor>;
          d = y - of_int n
      in if d < 1 / 2 then n
         else if 1 / 2 < d then n + 1
         else if even n then n else n + 1)"

definition fl64 :: "real \<Rightarrow> real" where
  "fl64 x =
     (if x = 0 then 0
      else
        let e = \<lfloor>log 2 \<bar>x\<bar>\<rfloor>;
            ulp = 2 powr (of_int e - 52)
        in ulp * of_int (round_half_even (x / ulp)))"

text \<open>
  \<open>compute_accelerations\<close> once more, with every arithmetic operation followed by the
  rounding \<open>rnd\<close>, and with the constants \<open>G\<close> and \<open>EPS_ACCEL\<close> as the parameters \<open>Gc\<close> and
  \<open>eps\<close>. With no rounding it is \<open>compute_accelerations\<close> itself (lemma
  \<open>compute_accelerations_with_exact\<close>). \<open>np.dot\<close> is the products summed in index order,
  \<open>EPS_ACCEL**2\<close> the rounded square.
\<close>

definition vsub_with :: "(real \<Rightarrow> real) \<Rightarrow> vec3 \<Rightarrow> vec3 \<Rightarrow> vec3" where
  "vsub_with rnd u v = Vec3 (rnd (c0 u - c0 v)) (rnd (c1 u - c1 v)) (rnd (c2 u - c2 v))"

definition vadd_with :: "(real \<Rightarrow> real) \<Rightarrow> vec3 \<Rightarrow> vec3 \<Rightarrow> vec3" where
  "vadd_with rnd u v = Vec3 (rnd (c0 u + c0 v)) (rnd (c1 u + c1 v)) (rnd (c2 u + c2 v))"

definition smult_with :: "(real \<Rightarrow> real) \<Rightarrow> real \<Rightarrow> vec3 \<Rightarrow> vec3" where
  "smult_with rnd s v = Vec3 (rnd (s * c0 v)) (rnd (s * c1 v)) (rnd (s * c2 v))"

definition dot_with :: "(real \<Rightarrow> real) \<Rightarrow> vec3 \<Rightarrow> vec3 \<Rightarrow> real" where
  "dot_with rnd u v = rnd (rnd (rnd (c0 u * c0 v) + rnd (c1 u * c1 v)) + rnd (c2 u * c2 v))"

definition pair_update_with ::
  "(real \<Rightarrow> real) \<Rightarrow> real \<Rightarrow> real \<Rightarrow> nat \<Rightarrow> nat \<Rightarrow> body list \<Rightarrow> body list" where
  "pair_update_with rnd Gc eps i j bodies =
     (let rij = vsub_with rnd (pos (bodies ! j)) (pos (bodies ! i));
          dist2 = rnd (dot_with rnd rij rij + rnd (eps * eps));
          dist = rnd (sqrt dist2);
          inv_r3 = rnd (1 / rnd (dist2 * dist));
          ai = smult_with rnd inv_r3 (smult_with rnd (rnd (Gc * mass (bodies ! j))) rij);
          aj = smult_with rnd inv_r3 (smult_with rnd (rnd (- Gc * mass (bodies ! i))) rij);
          bodies1 = bodies[i := (bodies ! i)\<lparr>acc := vadd_with rnd (acc (bodies ! i)) ai\<rparr>]
      in bodies1[j := (bodies1 ! j)\<lparr>acc := vadd_with rnd (acc (bodies1 ! j)) aj\<rparr>])"

definition pair_loop_with ::
  "(real \<Rightarrow> real) \<Rightarrow> real \<Rightarrow> real \<Rightarrow> nat \<Rightarrow> body list \<Rightarrow> body list" where
  "pair_loop_with rnd Gc eps n bodies =
     fold (\<lambda>i bs. fold (\<lambda>j. pair_update_with rnd Gc eps i j) [Suc i..<n] bs) [0..<n] bodies"

definition compute_accelerations_with ::
  "(real \<Rightarrow> real) \<Rightarrow> real \<Rightarrow> real \<Rightarrow> body list \<Rightarrow> body list" where
  "compute_accelerations_with rnd Gc eps bodies =
     pair_loop_with rnd Gc eps (length bodies) (reset_acc bodies)"

text \<open>
  The constants as floats: \<open>math.pi\<close>, \<open>G = 4.0 * math.pi**2\<close>, and \<open>EPS_ACCEL = 1e-5\<close>
  (a decimal literal is the binary64 number nearest to it); and the two bodies of
  \<open>create_test_system\<close> with their fields as floats.
\<close>

definition PI64 :: real where
  "PI64 = 7074237752028440 / 2 ^ 51"

definition G64 :: real where
  "G64 = fl64 (4 * fl64 (PI64 * PI64))"

definition EPS_ACCEL64 :: real where
  "EPS_ACCEL64 = fl64 (1 / 100000)"

definition test_sun64 :: body where
  "test_sun64 = \<lparr>name = ''Sun'', mass = fl64 1, radius = fl64 (465 / 100000), pos = Vec3 0 0 0,
     vel = Vec3 0 0 0, acc = Vec3 0 0 0, color = [1, 1, 0], trail = []\<rparr>"

definition test_earth64 :: body where
  "test_earth64 = \<lparr>name = ''Earth'', mass = fl64 (3003 / 1000000000),
     radius = fl64 (426 / 10000000), pos = Vec3 1 0 0,
     vel = Vec3 0 (fl64 (sqrt (fl64 (fl64 (G64 * 1) / 1)))) 0, acc = Vec3 0 0 0,
     color = [fl64 (2 / 10), fl64 (4 / 10), 1], trail = []\<rparr>"

section \<open>Lemmas\<close>

lemma smult_simps:
  "smult a (smult b v) = smult (a * b) v"
  "smult a (u + v) = smult a u + smult a v"
  "smult a (- v) = - smult a v"
  "smult (- a) v = - smult a v"
  "smult a 0 = 0" "smult 0 v = 0" "smult 1 v = v"
  by (simp_all add: smult_def plus_vec3_def uminus_vec3_def zero_vec3_def algebra_simps)

lemma dot_neg: "dot (u - v) (u - v) = dot (v - u) (v - u)"
  by (simp add: dot_def minus_vec3_def power2_eq_square algebra_simps)

lemma code_term_neg:
  "smult (1 / ((dot (pos bj - pos bi) (pos bj - pos bi) + EPS_ACCEL\<^sup>2) * sqrt (dot (pos bj - pos bi) (pos bj - pos bi) + EPS_ACCEL\<^sup>2)))
      (smult (- G * mass bi) (pos bj - pos bi)) = code_term bj bi"
proof -
  have d: "dot (pos bj - pos bi) (pos bj - pos bi) = dot (pos bi - pos bj) (pos bi - pos bj)"
    by (rule dot_neg)
  have m: "smult (- G * mass bi) (pos bj - pos bi) = smult (G * mass bi) (pos bi - pos bj)"
    by (simp add: smult_def minus_vec3_def algebra_simps)
  show ?thesis unfolding code_term_def Let_def d m ..
qed

lemma pair_update_eq:
  assumes "i < length bs" "j < length bs" "i \<noteq> j"
  shows "pair_update i j bs =
         map (\<lambda>k. (bs ! k)\<lparr>acc := acc (bs ! k) + contrib bs k (i, j)\<rparr>) [0..<length bs]"
proof (rule nth_equalityI)
  show "length (pair_update i j bs) = length (map (\<lambda>k. (bs ! k)\<lparr>acc := acc (bs ! k) + contrib bs k (i, j)\<rparr>) [0..<length bs])"
    by (simp add: pair_update_def Let_def)
next
  fix k assume "k < length (pair_update i j bs)"
  then have k: "k < length bs" by (simp add: pair_update_def Let_def)
  show "pair_update i j bs ! k = map (\<lambda>k. (bs ! k)\<lparr>acc := acc (bs ! k) + contrib bs k (i, j)\<rparr>) [0..<length bs] ! k"
    using assms k code_term_neg[of "bs ! j" "bs ! i"]
    by (simp add: pair_update_def Let_def contrib_def nth_list_update code_term_def)
qed

lemma fold_pairs_eq:
  assumes "\<And>p. p \<in> set ps \<Longrightarrow> fst p < length bs \<and> snd p < length bs \<and> fst p \<noteq> snd p"
  shows "fold (\<lambda>p. pair_update (fst p) (snd p)) ps bs =
         map (\<lambda>k. (bs ! k)\<lparr>acc := acc (bs ! k) + sum_list (map (contrib bs k) ps)\<rparr>) [0..<length bs]"
  using assms
proof (induction ps rule: rev_induct)
  case Nil
  show ?case by (simp add: map_nth)
next
  case (snoc p ps)
  let ?bs' = "map (\<lambda>k. (bs ! k)\<lparr>acc := acc (bs ! k) + sum_list (map (contrib bs k) ps)\<rparr>) [0..<length bs]"
  have IH: "fold (\<lambda>p. pair_update (fst p) (snd p)) ps bs = ?bs'"
    using snoc by simp
  have p: "fst p < length bs" "snd p < length bs" "fst p \<noteq> snd p"
    using snoc.prems[of p] by simp_all
  have len: "length ?bs' = length bs" by simp
  have c: "contrib ?bs' k p = contrib bs k p" for k
    using p by (simp add: contrib_def code_term_def)
  have "fold (\<lambda>p. pair_update (fst p) (snd p)) (ps @ [p]) bs = pair_update (fst p) (snd p) ?bs'"
    by (simp add: IH)
  also have "\<dots> = map (\<lambda>k. (?bs' ! k)\<lparr>acc := acc (?bs' ! k) + contrib ?bs' k (fst p, snd p)\<rparr>) [0..<length ?bs']"
    using p by (intro pair_update_eq) simp_all
  also have "\<dots> = map (\<lambda>k. (bs ! k)\<lparr>acc := acc (bs ! k) + sum_list (map (contrib bs k) (ps @ [p]))\<rparr>) [0..<length bs]"
    by (rule nth_equalityI) (simp_all add: c add.assoc)
  finally show ?case .
qed

lemma pair_loop_pairs:
  "pair_loop n bs = fold (\<lambda>p. pair_update (fst p) (snd p)) (pairs n) bs"
proof -
  have inner: "fold (\<lambda>j. pair_update i j) js b = fold (\<lambda>p. pair_update (fst p) (snd p)) (map (Pair i) js) b" for i js b
    by (simp add: fold_map comp_def)
  have "fold (\<lambda>i b. fold (\<lambda>j. pair_update i j) (g i) b) is b =
        fold (\<lambda>p. pair_update (fst p) (snd p)) (concat (map (\<lambda>i. map (Pair i) (g i)) is)) b" for g "is" b
    by (induction "is" arbitrary: b) (simp_all add: inner)
  then show ?thesis by (simp add: pair_loop_def pairs_def)
qed

lemma sum_list_pairs:
  "sum_list (map f (pairs n)) = (\<Sum>i\<in>{0..<n}. \<Sum>j\<in>{Suc i..<n}. f (i, j))"
  for f :: "nat \<times> nat \<Rightarrow> 'a::comm_monoid_add"
proof -
  have "sum_list (map f (pairs n)) = sum_list (map (\<lambda>i. sum_list (map (\<lambda>j. f (i, j)) [Suc i..<n])) [0..<n])"
  proof -
    have "sum_list (map f (concat (map (\<lambda>i. map (Pair i) (g i)) is))) =
          sum_list (map (\<lambda>i. sum_list (map (\<lambda>j. f (i, j)) (g i))) is)" for g "is"
      by (induction "is") (simp_all add: comp_def)
    then show ?thesis by (simp add: pairs_def)
  qed
  also have "\<dots> = (\<Sum>i\<in>{0..<n}. \<Sum>j\<in>{Suc i..<n}. f (i, j))"
    by (simp add: interv_sum_list_conv_sum_set_nat)
  finally show ?thesis .
qed

lemma contrib_sum:
  assumes "k < n"
  shows "sum_list (map (contrib bs k) (pairs n)) = (\<Sum>j\<in>{..<n} - {k}. code_term (bs ! k) (bs ! j))"
proof -
  let ?t = "\<lambda>j. code_term (bs ! k) (bs ! j)"
  have inner: "(\<Sum>j\<in>{Suc i..<n}. contrib bs k (i, j)) =
        (if i = k then sum ?t {Suc k..<n} else if i < k then ?t i else 0)" for i
  proof (cases "i = k")
    case True
    then show ?thesis by (simp add: contrib_def)
  next
    case False
    then have "(\<Sum>j\<in>{Suc i..<n}. contrib bs k (i, j)) = (\<Sum>j\<in>{Suc i..<n}. if k = j then ?t i else 0)"
      by (intro sum.cong) (auto simp: contrib_def)
    also have "\<dots> = (if k \<in> {Suc i..<n} then ?t i else 0)"
      by (simp add: sum.delta')
    finally show ?thesis using False assms by auto
  qed
  have "sum_list (map (contrib bs k) (pairs n)) = (\<Sum>i\<in>{0..<n}. if i = k then sum ?t {Suc k..<n} else if i < k then ?t i else 0)"
    by (simp add: sum_list_pairs inner)
  also have "\<dots> = (\<Sum>i\<in>{0..<n}. (if i = k then sum ?t {Suc k..<n} else 0) + (if i < k then ?t i else 0))"
    by (intro sum.cong) auto
  also have "\<dots> = sum ?t {Suc k..<n} + (\<Sum>i\<in>{0..<n}. if i < k then ?t i else 0)"
    using assms by (simp add: sum.distrib sum.delta)
  also have "(\<Sum>i\<in>{0..<n}. if i < k then ?t i else 0) = sum ?t {..<k}"
  proof -
    have "(\<Sum>i\<in>{0..<n}. if i < k then ?t i else 0) = sum ?t {i \<in> {0..<n}. i < k}"
      by (rule sum.inter_filter[symmetric]) simp
    also have "{i \<in> {0..<n}. i < k} = {..<k}" using assms by auto
    finally show ?thesis .
  qed
  also have "sum ?t {Suc k..<n} + sum ?t {..<k} = sum ?t ({Suc k..<n} \<union> {..<k})"
    by (rule sum.union_disjoint[symmetric]) auto
  also have "{Suc k..<n} \<union> {..<k} = {..<n} - {k}" using assms by auto
  finally show ?thesis .
qed

lemma dot_self_nonneg: "0 \<le> dot v v"
  by (simp add: dot_def)

lemma softened_pos: "0 < dot v v + EPS_ACCEL\<^sup>2"
proof -
  have "0 < EPS_ACCEL\<^sup>2" by (simp add: EPS_ACCEL_def)
  with dot_self_nonneg[of v] show ?thesis by linarith
qed

lemma softened_divisor_pos:
  "0 < (dot v v + EPS_ACCEL\<^sup>2) * sqrt (dot v v + EPS_ACCEL\<^sup>2)"
  using softened_pos[of v] by simp

lemma pn_divisors_pos:
  "0 < sqrt (dot v v + EPS_ACCEL\<^sup>2)"
  "0 < C_AU_PER_YR\<^sup>2 * sqrt (dot v v + EPS_ACCEL\<^sup>2) ^ 3"
proof -
  show r: "0 < sqrt (dot v v + EPS_ACCEL\<^sup>2)"
    using softened_pos[of v] by simp
  have "0 < C_AU_PER_YR"
    by (simp add: C_AU_PER_YR_def C_SI_def SECONDS_PER_YEAR_def AU_IN_METERS_def)
  with r show "0 < C_AU_PER_YR\<^sup>2 * sqrt (dot v v + EPS_ACCEL\<^sup>2) ^ 3"
    by simp
qed

lemma powr_three_halves: "0 < d \<Longrightarrow> d powr (3 / 2) = d * sqrt d" for d :: real
proof -
  assume d: "0 < d"
  have "d powr (3 / 2) = d powr (1 + 1 / 2)" by simp
  also have "\<dots> = d powr 1 * d powr (1 / 2)" by (rule powr_add)
  also have "\<dots> = d * sqrt d" using d by (simp add: powr_half_sqrt)
  finally show ?thesis .
qed

lemma code_term_newtonian: "code_term bi bj = newtonian_term bi bj"
  using powr_three_halves[OF softened_pos[of "pos bj - pos bi"]]
  by (simp add: code_term_def newtonian_term_def Let_def smult_simps)

lemma set_pairs: "p \<in> set (pairs n) \<Longrightarrow> fst p < snd p \<and> snd p < n"
  by (auto simp: pairs_def)

lemma compute_accelerations_closed:
  "compute_accelerations bodies =
     map (\<lambda>i. (bodies ! i)\<lparr>acc := newtonian_accel bodies i\<rparr>) [0..<length bodies]"
proof -
  let ?n = "length bodies"
  let ?rb = "reset_acc bodies"
  have len: "length ?rb = ?n" by (simp add: reset_acc_def)
  have "compute_accelerations bodies = fold (\<lambda>p. pair_update (fst p) (snd p)) (pairs ?n) ?rb"
    by (simp add: compute_accelerations_def pair_loop_pairs)
  also have "\<dots> = map (\<lambda>k. (?rb ! k)\<lparr>acc := acc (?rb ! k) + sum_list (map (contrib ?rb k) (pairs ?n))\<rparr>) [0..<length ?rb]"
    by (rule fold_pairs_eq) (use set_pairs len in fastforce)
  also have "\<dots> = map (\<lambda>i. (bodies ! i)\<lparr>acc := newtonian_accel bodies i\<rparr>) [0..<?n]"
  proof (rule nth_equalityI)
    show "length (map (\<lambda>k. (?rb ! k)\<lparr>acc := acc (?rb ! k) + sum_list (map (contrib ?rb k) (pairs ?n))\<rparr>) [0..<length ?rb])
        = length (map (\<lambda>i. (bodies ! i)\<lparr>acc := newtonian_accel bodies i\<rparr>) [0..<?n])"
      by (simp add: len)
  next
    fix k assume "k < length (map (\<lambda>k. (?rb ! k)\<lparr>acc := acc (?rb ! k) + sum_list (map (contrib ?rb k) (pairs ?n))\<rparr>) [0..<length ?rb])"
    then have k: "k < ?n" by (simp add: len)
    have "sum_list (map (contrib ?rb k) (pairs ?n)) = (\<Sum>j\<in>{..<?n} - {k}. code_term (?rb ! k) (?rb ! j))"
      by (rule contrib_sum[OF k])
    also have "\<dots> = (\<Sum>j\<in>{..<?n} - {k}. newtonian_term (bodies ! k) (bodies ! j))"
      using k by (intro sum.cong) (auto simp: code_term_newtonian newtonian_term_def reset_acc_def)
    finally have "sum_list (map (contrib ?rb k) (pairs ?n)) = newtonian_accel bodies k"
      by (simp add: newtonian_accel_def)
    then show "map (\<lambda>k. (?rb ! k)\<lparr>acc := acc (?rb ! k) + sum_list (map (contrib ?rb k) (pairs ?n))\<rparr>) [0..<length ?rb] ! k
        = map (\<lambda>i. (bodies ! i)\<lparr>acc := newtonian_accel bodies i\<rparr>) [0..<?n] ! k"
      using k by (simp add: len reset_acc_def)
  qed
  finally show ?thesis .
qed

lemma length_compute_accelerations: "length (compute_accelerations bodies) = length bodies"
  by (simp add: compute_accelerations_closed)

lemma step_system_order:
  "step_system bodies dt use_relativity =
     (if use_relativity \<and> bodies = [] then Some IndexError else None,
      half_kick dt (new_accelerations use_relativity (drift dt (half_kick dt bodies))))"
proof (cases "use_relativity")
  case False
  then show ?thesis by (simp add: step_system_def new_accelerations_def Let_def)
next
  case True
  show ?thesis
  proof (cases "bodies = []")
    case True
    with \<open>use_relativity\<close> show ?thesis
      by (simp add: step_system_def new_accelerations_def Let_def half_kick_def drift_def
          compute_accelerations_closed compute_pn_accelerations_def)
  next
    case False
    then have "compute_accelerations (drift dt (half_kick dt bodies)) \<noteq> []"
      using length_compute_accelerations[of "drift dt (half_kick dt bodies)"]
      by (auto simp: drift_def half_kick_def)
    then obtain bs4 where "compute_pn_accelerations (compute_accelerations (drift dt (half_kick dt bodies))) = Inr bs4"
      by (simp add: compute_pn_accelerations_def Let_def)
    with True False show ?thesis
      by (simp add: step_system_def new_accelerations_def Let_def)
  qed
qed

lemma compute_pn_closed:
  assumes "bs \<noteq> []"
  shows "compute_pn_accelerations bs =
     Inr (map (\<lambda>i. if i = 0 then bs ! 0
                    else (bs ! i)\<lparr>acc := acc (bs ! i) + pn_correction (bs ! 0) (mass (bs ! 0)) (bs ! i)\<rparr>)
              [0..<length bs])"
proof -
  let ?f = "\<lambda>b. b\<lparr>acc := acc b + pn_correction (bs ! 0) (mass (bs ! 0)) b\<rparr>"
  have "take 1 bs @ map ?f (drop 1 bs) =
        map (\<lambda>i. if i = 0 then bs ! 0 else ?f (bs ! i)) [0..<length bs]"
  proof (rule nth_equalityI)
    show "length (take 1 bs @ map ?f (drop 1 bs)) = length (map (\<lambda>i. if i = 0 then bs ! 0 else ?f (bs ! i)) [0..<length bs])"
      using assms by (cases bs) simp_all
  next
    fix i assume "i < length (take 1 bs @ map ?f (drop 1 bs))"
    then have i: "i < length bs" using assms by (cases bs) simp_all
    have "(take 1 bs @ map ?f (drop 1 bs)) ! i = (if i = 0 then bs ! 0 else ?f (bs ! i))"
      using i by (cases bs; cases i) simp_all
    then show "(take 1 bs @ map ?f (drop 1 bs)) ! i = map (\<lambda>i. if i = 0 then bs ! 0 else ?f (bs ! i)) [0..<length bs] ! i"
      using i by simp
  qed
  then show ?thesis using assms by (simp add: compute_pn_accelerations_def Let_def)
qed

lemma length_new_accelerations: "length (new_accelerations rel bs) = length bs"
proof (cases "rel \<and> bs \<noteq> []")
  case True
  then have "compute_accelerations bs \<noteq> []"
    using length_compute_accelerations[of bs] by auto
  from compute_pn_closed[OF this] True show ?thesis
    by (simp add: new_accelerations_def length_compute_accelerations)
next
  case False
  then show ?thesis
    by (auto simp: new_accelerations_def length_compute_accelerations compute_pn_accelerations_def
        compute_accelerations_closed)
qed

lemma new_accelerations_nth:
  assumes "i < length bs"
  shows "new_accelerations rel bs ! i = (bs ! i)\<lparr>acc := acc (new_accelerations rel bs ! i)\<rparr>"
proof (cases rel)
  case False
  then show ?thesis using assms by (simp add: new_accelerations_def compute_accelerations_closed)
next
  case True
  let ?C = "compute_accelerations bs"
  have ne: "?C \<noteq> []"
    using length_compute_accelerations[of bs] assms by auto
  have C: "?C ! i = (bs ! i)\<lparr>acc := newtonian_accel bs i\<rparr>"
    using assms by (simp add: compute_accelerations_closed)
  have "new_accelerations rel bs ! i =
        (if i = 0 then ?C ! 0 else (?C ! i)\<lparr>acc := acc (?C ! i) + pn_correction (?C ! 0) (mass (?C ! 0)) (?C ! i)\<rparr>)"
    using compute_pn_closed[OF ne] True assms
    by (simp add: new_accelerations_def length_compute_accelerations)
  then show ?thesis using C by (cases "i = 0") simp_all
qed

lemma step_nth:
  assumes "i < length bodies"
  shows "snd (step_system bodies dt rel) ! i =
     (bodies ! i)\<lparr>vel := vel (bodies ! i) + smult (1 / 2 * dt)
                      (acc (bodies ! i) + acc (new_accelerations rel (drift dt (half_kick dt bodies)) ! i)),
                  pos := pos (bodies ! i) + smult dt (vel (bodies ! i) + smult (1 / 2 * dt) (acc (bodies ! i))),
                  acc := acc (new_accelerations rel (drift dt (half_kick dt bodies)) ! i)\<rparr>"
proof -
  let ?Y = "drift dt (half_kick dt bodies)"
  have lY: "length ?Y = length bodies" by (simp add: drift_def half_kick_def)
  have Y: "?Y ! i = (bodies ! i)\<lparr>vel := vel (bodies ! i) + smult dt (smult (1 / 2) (acc (bodies ! i))),
       pos := pos (bodies ! i) + smult dt (vel (bodies ! i) + smult dt (smult (1 / 2) (acc (bodies ! i))))\<rparr>"
    using assms by (simp add: drift_def half_kick_def)
  have N: "new_accelerations rel ?Y ! i = (?Y ! i)\<lparr>acc := acc (new_accelerations rel ?Y ! i)\<rparr>"
    using new_accelerations_nth[of i ?Y rel] assms lY by simp
  have "snd (step_system bodies dt rel) ! i =
        (new_accelerations rel ?Y ! i)\<lparr>vel := vel (new_accelerations rel ?Y ! i) +
           smult dt (smult (1 / 2) (acc (new_accelerations rel ?Y ! i)))\<rparr>"
    using assms lY by (simp add: step_system_order half_kick_def[of dt "new_accelerations rel ?Y"] length_new_accelerations)
  also have "\<dots> = (bodies ! i)\<lparr>vel := vel (bodies ! i) + smult (1 / 2 * dt)
                      (acc (bodies ! i) + acc (new_accelerations rel ?Y ! i)),
                  pos := pos (bodies ! i) + smult dt (vel (bodies ! i) + smult (1 / 2 * dt) (acc (bodies ! i))),
                  acc := acc (new_accelerations rel ?Y ! i)\<rparr>"
    by (subst (1 2) N) (simp add: Y smult_simps add.assoc mult.commute)
  finally show ?thesis .
qed

lemma length_step: "length (snd (step_system bodies dt rel)) = length bodies"
  by (simp add: step_system_order half_kick_def drift_def length_new_accelerations)

lemma step_closed:
  "snd (step_system bodies dt rel) =
     (let moved = drift dt (half_kick dt bodies);
          a' = (\<lambda>i. acc (new_accelerations rel moved ! i))
      in map (\<lambda>i. (bodies ! i)\<lparr>
                 vel := vel (bodies ! i) + smult (1 / 2 * dt) (acc (bodies ! i) + a' i),
                 pos := pos (bodies ! i) + smult dt (vel (bodies ! i) + smult (1 / 2 * dt) (acc (bodies ! i))),
                 acc := a' i\<rparr>) [0..<length bodies])"
  unfolding Let_def
  by (rule nth_equalityI) (simp_all add: length_step step_nth)

lemma newtonian_accel_cong:
  assumes "length bs = length bs'"
    and "\<And>k. k < length bs \<Longrightarrow> mass (bs ! k) = mass (bs' ! k) \<and> pos (bs ! k) = pos (bs' ! k)"
    and "i < length bs"
  shows "newtonian_accel bs i = newtonian_accel bs' i"
  unfolding newtonian_accel_def using assms
  by (intro sum.cong) (auto simp: newtonian_term_def)

lemma verlet_pos_back:
  "(p + smult dt (v + smult (1 / 2 * dt) a)) +
     smult (- dt) ((v + smult (1 / 2 * dt) (a + a1)) + smult (1 / 2 * (- dt)) a1) = p"
  by (cases p; cases v; cases a; cases a1)
     (simp add: smult_def plus_vec3_def field_simps)

lemma verlet_vel_back:
  "(v + smult (1 / 2 * dt) (a + a1)) + smult (1 / 2 * (- dt)) (a1 + a) = v"
  by (cases v; cases a; cases a1)
     (simp add: smult_def plus_vec3_def field_simps)

lemma consistent_acc:
  assumes "compute_accelerations bodies = bodies" "i < length bodies"
  shows "acc (bodies ! i) = newtonian_accel bodies i"
proof -
  have "bodies ! i = compute_accelerations bodies ! i" using assms by simp
  also have "\<dots> = (bodies ! i)\<lparr>acc := newtonian_accel bodies i\<rparr>"
    using assms(2) by (simp add: compute_accelerations_closed)
  finally have "acc (bodies ! i) = acc ((bodies ! i)\<lparr>acc := newtonian_accel bodies i\<rparr>)" by simp
  then show ?thesis by simp
qed

lemma step_back:
  assumes "compute_accelerations bodies = bodies"
  shows "snd (step_system (snd (step_system bodies dt False)) (- dt) False) = bodies"
proof (rule nth_equalityI)
  show "length (snd (step_system (snd (step_system bodies dt False)) (- dt) False)) = length bodies"
    by (simp add: length_step)
next
  fix i assume "i < length (snd (step_system (snd (step_system bodies dt False)) (- dt) False))"
  then have i: "i < length bodies" by (simp add: length_step)
  let ?S1 = "snd (step_system bodies dt False)"
  let ?Y1 = "drift dt (half_kick dt bodies)"
  let ?Y2 = "drift (- dt) (half_kick (- dt) ?S1)"
  define a1 where "a1 = (\<lambda>k. acc (new_accelerations False ?Y1 ! k))"
  have S1: "?S1 ! k = (bodies ! k)\<lparr>
                 vel := vel (bodies ! k) + smult (1 / 2 * dt) (acc (bodies ! k) + a1 k),
                 pos := pos (bodies ! k) + smult dt (vel (bodies ! k) + smult (1 / 2 * dt) (acc (bodies ! k))),
                 acc := a1 k\<rparr>" if "k < length bodies" for k
    using step_nth[OF that, of dt False] by (simp add: a1_def)
  have lY2: "length ?Y2 = length bodies" by (simp add: drift_def half_kick_def length_step)
  have Y2: "mass (?Y2 ! k) = mass (bodies ! k) \<and> pos (?Y2 ! k) = pos (bodies ! k)" if "k < length bodies" for k
  proof -
    have "?Y2 ! k = (?S1 ! k)\<lparr>vel := vel (?S1 ! k) + smult (- dt) (smult (1 / 2) (acc (?S1 ! k))),
        pos := pos (?S1 ! k) + smult (- dt) (vel (?S1 ! k) + smult (- dt) (smult (1 / 2) (acc (?S1 ! k))))\<rparr>"
      using that by (simp add: drift_def half_kick_def length_step)
    then show ?thesis
      using verlet_pos_back[of "pos (bodies ! k)" dt "vel (bodies ! k)" "acc (bodies ! k)" "a1 k"]
      by (simp add: S1[OF that] smult_simps)
  qed
  have a2: "acc (new_accelerations False ?Y2 ! i) = acc (bodies ! i)"
  proof -
    have "acc (new_accelerations False ?Y2 ! i) = newtonian_accel ?Y2 i"
      using i lY2 by (simp add: new_accelerations_def compute_accelerations_closed)
    also have "\<dots> = newtonian_accel bodies i"
      by (rule newtonian_accel_cong) (use lY2 Y2 i in simp_all)
    finally show ?thesis using consistent_acc[OF assms i] by simp
  qed
  have "snd (step_system ?S1 (- dt) False) ! i =
     (?S1 ! i)\<lparr>vel := vel (?S1 ! i) + smult (1 / 2 * (- dt)) (acc (?S1 ! i) + acc (bodies ! i)),
                  pos := pos (?S1 ! i) + smult (- dt) (vel (?S1 ! i) + smult (1 / 2 * (- dt)) (acc (?S1 ! i))),
                  acc := acc (bodies ! i)\<rparr>"
    using step_nth[of i ?S1 "- dt" False] i a2 by (simp add: length_step)
  also have "\<dots> = bodies ! i"
    using verlet_pos_back[of "pos (bodies ! i)" dt "vel (bodies ! i)" "acc (bodies ! i)" "a1 i"]
      verlet_vel_back[of "vel (bodies ! i)" dt "acc (bodies ! i)" "a1 i"]
    by (simp add: S1[OF i])
  finally show "snd (step_system ?S1 (- dt) False) ! i = bodies ! i" .
qed

lemma step_consistent:
  "compute_accelerations (snd (step_system bodies dt False)) = snd (step_system bodies dt False)"
proof (rule nth_equalityI)
  show "length (compute_accelerations (snd (step_system bodies dt False))) = length (snd (step_system bodies dt False))"
    by (simp add: length_compute_accelerations)
next
  fix i assume "i < length (compute_accelerations (snd (step_system bodies dt False)))"
  then have i: "i < length bodies" by (simp add: length_compute_accelerations length_step)
  let ?S = "snd (step_system bodies dt False)"
  let ?Y = "drift dt (half_kick dt bodies)"
  have lY: "length ?Y = length bodies" by (simp add: drift_def half_kick_def)
  have geo: "mass (?S ! k) = mass (?Y ! k) \<and> pos (?S ! k) = pos (?Y ! k)" if "k < length bodies" for k
    using that by (simp add: step_nth drift_def half_kick_def smult_simps mult.commute)
  have "newtonian_accel ?S i = newtonian_accel ?Y i"
    by (rule newtonian_accel_cong) (use geo i lY in \<open>simp_all add: length_step\<close>)
  moreover have "acc (?S ! i) = newtonian_accel ?Y i"
    using i lY by (simp add: step_nth new_accelerations_def compute_accelerations_closed)
  ultimately have "(?S ! i)\<lparr>acc := newtonian_accel ?S i\<rparr> = ?S ! i"
    by simp
  then show "compute_accelerations ?S ! i = ?S ! i"
    using i by (simp add: compute_accelerations_closed length_step)
qed

lemma run_steps_snoc:
  "run_steps (Suc N) dt bodies = snd (step_system (run_steps N dt bodies) dt False)"
  by (induction N arbitrary: bodies) simp_all

lemma run_steps_consistent:
  "compute_accelerations bodies = bodies \<Longrightarrow>
   compute_accelerations (run_steps N dt bodies) = run_steps N dt bodies"
  by (cases N) (simp_all only: run_steps.simps(1) run_steps_snoc step_consistent)

lemma run_steps_back:
  assumes "compute_accelerations bodies = bodies"
  shows "run_steps N (- dt) (run_steps N dt bodies) = bodies"
proof (induction N)
  case 0
  show ?case by simp
next
  case (Suc N)
  let ?W = "run_steps N dt bodies"
  have W: "compute_accelerations ?W = ?W"
    by (rule run_steps_consistent[OF assms])
  have "run_steps (Suc N) (- dt) (run_steps (Suc N) dt bodies) =
        run_steps N (- dt) (snd (step_system (snd (step_system ?W dt False)) (- dt) False))"
    unfolding run_steps_snoc[of N dt bodies] by (rule run_steps.simps(2))
  also have "\<dots> = run_steps N (- dt) ?W"
    by (simp only: step_back[OF W])
  finally show ?case using Suc.IH by simp
qed

lemma pu_nth:
  assumes i: "i < length bodies" and j: "j < length bodies" and ne: "i \<noteq> j" and k: "k < length bodies"
  shows "pair_update i j bodies ! k = (bodies ! k)\<lparr>acc := acc (bodies ! k) + contrib bodies k (i, j)\<rparr>"
  unfolding pair_update_eq[OF i j ne] using k by simp

lemma pair_delta:
  assumes i: "i < length bodies" and j: "j < length bodies" and ne: "i \<noteq> j"
  shows "acc (pair_update i j bodies ! i) - acc (bodies ! i) = newtonian_term (bodies ! i) (bodies ! j)"
    and "acc (pair_update i j bodies ! j) - acc (bodies ! j) = newtonian_term (bodies ! j) (bodies ! i)"
proof -
  have "acc (pair_update i j bodies ! i) = acc (bodies ! i) + contrib bodies i (i, j)"
    by (simp add: pu_nth[OF i j ne i])
  moreover have "contrib bodies i (i, j) = newtonian_term (bodies ! i) (bodies ! j)"
    by (simp add: contrib_def code_term_newtonian)
  ultimately show "acc (pair_update i j bodies ! i) - acc (bodies ! i) = newtonian_term (bodies ! i) (bodies ! j)"
    by simp
  have "acc (pair_update i j bodies ! j) = acc (bodies ! j) + contrib bodies j (i, j)"
    by (simp add: pu_nth[OF i j ne j])
  moreover have "contrib bodies j (i, j) = newtonian_term (bodies ! j) (bodies ! i)"
    using ne by (simp add: contrib_def code_term_newtonian)
  ultimately show "acc (pair_update i j bodies ! j) - acc (bodies ! j) = newtonian_term (bodies ! j) (bodies ! i)"
    by simp
qed

lemma newtonian_term_antisym:
  "smult (mass bi) (newtonian_term bi bj) = - smult (mass bj) (newtonian_term bj bi)"
proof -
  have d: "dot (pos bj - pos bi) (pos bj - pos bi) = dot (pos bi - pos bj) (pos bi - pos bj)"
    by (rule dot_neg)
  have m: "pos bj - pos bi = - (pos bi - pos bj)" by simp
  show ?thesis
    unfolding newtonian_term_def d
    by (subst m) (simp add: smult_simps mult.commute mult.left_commute del: minus_diff_eq)
qed

lemma compute_accelerations_idem:
  "compute_accelerations (compute_accelerations bodies) = compute_accelerations bodies"
proof -
  let ?C = "compute_accelerations bodies"
  have "newtonian_accel ?C i = newtonian_accel bodies i" if "i < length bodies" for i
    by (rule newtonian_accel_cong) (use that in \<open>simp_all add: compute_accelerations_closed\<close>)
  then show ?thesis
    by (intro nth_equalityI) (simp_all add: compute_accelerations_closed[of ?C] length_compute_accelerations,
        simp add: compute_accelerations_closed)
qed

lemma round_half_even_nearest:
  assumes "of_int n - 1 / 2 < y" "y < of_int n + 1 / 2"
  shows "round_half_even y = n"
proof (cases "of_int n \<le> y")
  case True
  then have "\<lfloor>y\<rfloor> = n" using assms by linarith
  then show ?thesis using assms by (simp add: round_half_even_def Let_def)
next
  case False
  then have f: "\<lfloor>y\<rfloor> = n - 1" using assms by linarith
  have "\<not> y - of_int (n - 1) < 1 / 2" "1 / 2 < y - of_int (n - 1)"
    using assms by simp_all
  then show ?thesis unfolding round_half_even_def Let_def f by simp
qed

lemma fl64_round:
  fixes k :: nat
  assumes "2 ^ 52 \<le> \<bar>x\<bar> * 2 ^ k" "\<bar>x\<bar> * 2 ^ k < 2 ^ 53"
    and "of_int n - 1 / 2 < x * 2 ^ k" "x * 2 ^ k < of_int n + 1 / 2"
  shows "fl64 x = of_int n / 2 ^ k"
proof -
  have x0: "x \<noteq> 0" using assms(1) by auto
  then have ax: "0 < \<bar>x\<bar>" by simp
  have p: "(2::real) powr (of_int (52 - int k)) = 2 ^ 52 / 2 ^ k"
  proof -
    have "(2::real) powr (of_int (52 - int k)) = 2 powr (52 - real k)" by simp
    also have "\<dots> = 2 powr 52 / 2 powr (real k)" by (rule powr_diff)
    also have "\<dots> = 2 ^ 52 / 2 ^ k" by (simp add: powr_realpow)
    finally show ?thesis .
  qed
  have p1: "(2::real) powr (of_int (52 - int k + 1)) = 2 ^ 53 / 2 ^ k"
  proof -
    have "(2::real) powr (of_int (52 - int k + 1)) = 2 powr (53 - real k)" by simp
    also have "\<dots> = 2 powr 53 / 2 powr (real k)" by (rule powr_diff)
    also have "\<dots> = 2 ^ 53 / 2 ^ k" by (simp add: powr_realpow)
    finally show ?thesis .
  qed
  have "(2::real) powr (of_int (52 - int k)) \<le> \<bar>x\<bar>"
    unfolding p using assms(1) by (simp add: pos_divide_le_eq)
  moreover have "\<bar>x\<bar> < (2::real) powr (of_int (52 - int k + 1))"
    unfolding p1 using assms(2) by (simp add: pos_less_divide_eq)
  ultimately have e: "\<lfloor>log 2 \<bar>x\<bar>\<rfloor> = 52 - int k"
    using ax by (subst floor_log_eq_powr_iff) simp_all
  have u: "(2::real) powr (- real k) = 1 / 2 ^ k"
    by (simp add: powr_minus powr_realpow divide_inverse)
  have "round_half_even (x / (1 / 2 ^ k)) = n"
    by (rule round_half_even_nearest) (use assms(3,4) in simp_all)
  then show ?thesis
    using x0 by (simp add: fl64_def Let_def e u)
qed

lemma fl64_sqrt_round:
  fixes k :: nat
  assumes "0 < n" "(2 ^ 52)\<^sup>2 \<le> q * (2 ^ k)\<^sup>2" "q * (2 ^ k)\<^sup>2 < (2 ^ 53)\<^sup>2"
    and "(of_int n - 1 / 2)\<^sup>2 < q * (2 ^ k)\<^sup>2" "q * (2 ^ k)\<^sup>2 < (of_int n + 1 / 2)\<^sup>2"
  shows "fl64 (sqrt q) = of_int n / 2 ^ k"
proof -
  have q: "0 \<le> q * (2 ^ k)\<^sup>2" using assms(2) by (smt (verit) zero_le_power2)
  have s: "sqrt q * 2 ^ k = sqrt (q * (2 ^ k)\<^sup>2)"
    by (simp add: real_sqrt_mult)
  have n: "(0::real) \<le> of_int n - 1 / 2" using assms(1) by linarith
  have a: "0 \<le> sqrt q" using q by (simp add: zero_le_mult_iff)
  show ?thesis
  proof (rule fl64_round)
    show "2 ^ 52 \<le> \<bar>sqrt q\<bar> * 2 ^ k"
      using a assms(2) unfolding abs_of_nonneg[OF a] s by (intro real_le_rsqrt) simp
    show "\<bar>sqrt q\<bar> * 2 ^ k < 2 ^ 53"
      unfolding abs_of_nonneg[OF a] s using assms(3) q by (intro real_less_lsqrt) simp_all
    show "of_int n - 1 / 2 < sqrt q * 2 ^ k"
      unfolding s using assms(4) n by (intro real_less_rsqrt) simp
    show "sqrt q * 2 ^ k < of_int n + 1 / 2"
      unfolding s using assms(5) q n by (intro real_less_lsqrt) simp_all
  qed
qed

lemma fl64_zero: "fl64 0 = 0"
  by (simp add: fl64_def)

lemma fl64_one: "fl64 1 = 1"
  using fl64_round[of 1 52 "2 ^ 52"] by simp

lemma compute_accelerations_with_exact:
  "compute_accelerations_with (\<lambda>x. x) G EPS_ACCEL bodies = compute_accelerations bodies"
proof -
  have v: "vsub_with (\<lambda>x. x) u w = u - w" "vadd_with (\<lambda>x. x) u w = u + w"
    "smult_with (\<lambda>x. x) s w = smult s w" "dot_with (\<lambda>x. x) u w = dot u w" for u w s
    by (simp_all add: vsub_with_def vadd_with_def smult_with_def dot_with_def
        minus_vec3_def plus_vec3_def smult_def dot_def)
  have "pair_update_with (\<lambda>x. x) G EPS_ACCEL i = pair_update i" for i
    by (intro ext) (simp add: pair_update_with_def pair_update_def v power2_eq_square)
  then show ?thesis
    by (simp add: compute_accelerations_with_def compute_accelerations_def
        pair_loop_with_def pair_loop_def)
qed

lemma G64_value: "G64 = 5556093337880030 / 2 ^ 47"
proof -
  have "fl64 (PI64 * PI64) = 5556093337880030 / 2 ^ 49"
    unfolding PI64_def
    using fl64_round[of "7074237752028440 / 2 ^ 51 * (7074237752028440 / 2 ^ 51)" 49 5556093337880030]
    by simp
  moreover have "fl64 (4 * (5556093337880030 / 2 ^ 49)) = 5556093337880030 / 2 ^ 47"
    using fl64_round[of "4 * (5556093337880030 / 2 ^ 49)" 47 5556093337880030]
    by simp
  ultimately show ?thesis by (simp only: G64_def)
qed

lemma EPS_ACCEL64_value: "EPS_ACCEL64 = 5902958103587057 / 2 ^ 69"
  unfolding EPS_ACCEL64_def
  using fl64_round[of "1 / 100000" 69 5902958103587057] by simp

lemma two_body_binary64:
  "compute_accelerations_with fl64 G64 EPS_ACCEL64 [test_sun64, test_earth64] =
     [test_sun64\<lparr>acc := Vec3 (8747718169670968 / 2 ^ 66) 0 0\<rparr>,
      test_earth64\<lparr>acc := Vec3 (- (5556093337046616 / 2 ^ 47)) 0 0\<rparr>]"
proof -
  define m :: real where "m = 7090633274028772 / 2 ^ 71"
  define eps2 :: real where "eps2 = 7737125245533628 / 2 ^ 86"
  define dist2 :: real where "dist2 = 4503599627820856 / 2 ^ 52"
  define dist :: real where "dist = 4503599627595676 / 2 ^ 52"
  define d3 :: real where "d3 = 4503599628046036 / 2 ^ 52"
  define inv :: real where "inv = 9007199253389912 / 2 ^ 53"
  define gm :: real where "gm = 8747718170983126 / 2 ^ 66"
  define A :: real where "A = 8747718169670968 / 2 ^ 66"
  define B :: real where "B = 5556093337046616 / 2 ^ 47"
  have s_m: "fl64 (3003 / 1000000000) = m"
    unfolding m_def using fl64_round[of "3003 / 1000000000" 71 7090633274028772] by simp
  have s_eps2: "fl64 (EPS_ACCEL64 * EPS_ACCEL64) = eps2"
    unfolding eps2_def EPS_ACCEL64_value
    using fl64_round[of "5902958103587057 / 2 ^ 69 * (5902958103587057 / 2 ^ 69)" 86 7737125245533628]
    by simp
  have s_dist2: "fl64 (1 + eps2) = dist2"
    unfolding eps2_def dist2_def
    using fl64_round[of "1 + 7737125245533628 / 2 ^ 86" 52 4503599627820856] by simp
  have s_dist: "fl64 (sqrt dist2) = dist"
  proof -
    have "fl64 (sqrt (4503599627820856 / 2 ^ 52)) = real_of_int 4503599627595676 / 2 ^ 52"
    proof (rule fl64_sqrt_round)
    show "(0::int) < 4503599627595676" by simp
    show "((2::real) ^ 52)\<^sup>2 \<le> 4503599627820856 / 2 ^ 52 * (2 ^ 52)\<^sup>2"
      by (simp add: power2_eq_square)
    show "4503599627820856 / 2 ^ 52 * (2 ^ 52)\<^sup>2 < ((2::real) ^ 53)\<^sup>2"
      by (simp add: power2_eq_square)
    show "(real_of_int 4503599627595676 - 1 / 2)\<^sup>2 < 4503599627820856 / 2 ^ 52 * (2 ^ 52)\<^sup>2"
      by (simp add: power2_eq_square)
    show "4503599627820856 / 2 ^ 52 * (2 ^ 52)\<^sup>2 < (real_of_int 4503599627595676 + 1 / 2)\<^sup>2"
      by (simp add: power2_eq_square)
    qed
    then show ?thesis by (simp add: dist2_def dist_def)
  qed
  have s_d3: "fl64 (dist2 * dist) = d3"
    unfolding dist2_def dist_def d3_def
    using fl64_round[of "4503599627820856 / 2 ^ 52 * (4503599627595676 / 2 ^ 52)" 52 4503599628046036]
    by simp
  have s_inv: "fl64 (1 / d3) = inv"
    unfolding d3_def inv_def
    using fl64_round[of "1 / (4503599628046036 / 2 ^ 52)" 53 9007199253389912] by simp
  have s_gm: "fl64 (G64 * m) = gm"
    unfolding G64_value m_def gm_def
    using fl64_round[of "5556093337880030 / 2 ^ 47 * (7090633274028772 / 2 ^ 71)" 66 8747718170983126]
    by simp
  have s_gm': "fl64 gm = gm"
    unfolding gm_def using fl64_round[of "8747718170983126 / 2 ^ 66" 66 8747718170983126] by simp
  have s_A: "fl64 (inv * gm) = A"
    unfolding inv_def gm_def A_def
    using fl64_round[of "9007199253389912 / 2 ^ 53 * (8747718170983126 / 2 ^ 66)" 66 8747718169670968]
    by simp
  have s_A': "fl64 A = A"
    unfolding A_def using fl64_round[of "8747718169670968 / 2 ^ 66" 66 8747718169670968] by simp
  have s_G: "fl64 (- G64) = - G64"
    unfolding G64_value
    using fl64_round[of "- (5556093337880030 / 2 ^ 47)" 47 "- 5556093337880030"] by simp
  have s_B: "fl64 (- (inv * G64)) = - B"
    unfolding inv_def G64_value B_def
    using fl64_round[of "- (9007199253389912 / 2 ^ 53 * (5556093337880030 / 2 ^ 47))" 47 "- 5556093337046616"]
    by simp
  have s_B': "fl64 (- B) = - B"
    unfolding B_def
    using fl64_round[of "- (5556093337046616 / 2 ^ 47)" 47 "- 5556093337046616"] by simp
  have u: "[0..<2] = [0, 1]" "[Suc 0..<2] = [1]" "[2..<2] = []"
    by (simp_all add: upt_rec)
  have "compute_accelerations_with fl64 G64 EPS_ACCEL64 [test_sun64, test_earth64] =
     [test_sun64\<lparr>acc := Vec3 A 0 0\<rparr>, test_earth64\<lparr>acc := Vec3 (- B) 0 0\<rparr>]"
    by (simp add: compute_accelerations_with_def pair_loop_with_def reset_acc_def u
        pair_update_with_def Let_def test_sun64_def test_earth64_def zero_vec3_def
        vsub_with_def vadd_with_def smult_with_def dot_with_def fl64_zero fl64_one
        s_m s_eps2 s_dist2 s_dist s_d3 s_inv s_gm s_gm' s_A s_A' s_G s_B s_B')
  then show ?thesis by (simp only: A_def B_def)
qed

lemma dot_self_zero_iff: "dot w w = 0 \<longleftrightarrow> w = 0"
proof (cases w)
  case (Vec3 x y z)
  have "x * x + y * y + z * z = 0 \<longleftrightarrow> x = 0 \<and> y = 0 \<and> z = 0"
  proof
    assume a: "x * x + y * y + z * z = 0"
    have "0 \<le> x * x" "0 \<le> y * y" "0 \<le> z * z" by simp_all
    with a have "x * x = 0" "y * y = 0" "z * z = 0" by linarith+
    then show "x = 0 \<and> y = 0 \<and> z = 0" by simp
  qed simp
  with Vec3 show ?thesis by (simp add: dot_def zero_vec3_def)
qed

lemma norm3_pos_iff: "0 < norm3 (u - v) \<longleftrightarrow> u \<noteq> v"
proof -
  have "0 < norm3 (u - v) \<longleftrightarrow> dot (u - v) (u - v) \<noteq> 0"
    using dot_self_nonneg[of "u - v"] by (auto simp: norm3_def)
  then show ?thesis by (simp add: dot_self_zero_iff)
qed

lemma norm3_swap: "norm3 (u - v) = norm3 (v - u)"
  by (simp add: norm3_def dot_neg[of u v])

lemma pot_step_Inr:
  "pot_step bodies i j (Inr E) = Inr (E - pot_term bodies (i, j))"
proof (cases "pos (bodies ! j) = pos (bodies ! i)")
  case True
  then show ?thesis by (simp add: pot_step_def pot_term_def Let_def norm3_def dot_def zero_vec3_def)
next
  case False
  then have "0 < norm3 (pos (bodies ! j) - pos (bodies ! i))" by (simp add: norm3_pos_iff)
  with False show ?thesis
    by (auto simp: pot_step_def pot_term_def Let_def bind_fault_def np_divide_def
        norm3_swap[of "pos (bodies ! i)" "pos (bodies ! j)"])
qed

lemma fold_pot_step:
  "fold (\<lambda>p. pot_step bodies (fst p) (snd p)) ps (Inr E) =
     Inr (E - sum_list (map (pot_term bodies) ps))"
  by (induction ps arbitrary: E) (simp_all add: pot_step_Inr algebra_simps)

lemma potential_loop_pairs:
  "fold (\<lambda>i E. fold (\<lambda>j. pot_step bodies i j) [Suc i..<n] E) [0..<n] E0 =
     fold (\<lambda>p. pot_step bodies (fst p) (snd p)) (pairs n) E0"
proof -
  have inner: "fold (\<lambda>j. pot_step bodies i j) js E = fold (\<lambda>p. pot_step bodies (fst p) (snd p)) (map (Pair i) js) E"
    for i js E
    by (simp add: fold_map comp_def)
  have "fold (\<lambda>i E. fold (\<lambda>j. pot_step bodies i j) (g i) E) is E =
        fold (\<lambda>p. pot_step bodies (fst p) (snd p)) (concat (map (\<lambda>i. map (Pair i) (g i)) is)) E" for g "is" E
    by (induction "is" arbitrary: E) (simp_all add: inner)
  then show ?thesis by (simp add: pairs_def)
qed

lemma potential_energy_closed:
  "potential_energy bodies =
     Inr (- (\<Sum>i\<in>{0..<length bodies}. \<Sum>j\<in>{Suc i..<length bodies}. pot_term bodies (i, j)))"
  by (simp add: potential_energy_def Let_def potential_loop_pairs fold_pot_step sum_list_pairs)

lemma fold_add_sum_list:
  "fold (\<lambda>b E. E + g b) bs a = a + sum_list (map g bs)" for a :: real
  by (induction bs arbitrary: a) (simp_all add: algebra_simps)

lemma kinetic_energy_closed:
  "kinetic_energy bodies =
     (\<Sum>i\<in>{0..<length bodies}. 1 / 2 * mass (bodies ! i) * dot (vel (bodies ! i)) (vel (bodies ! i)))"
proof -
  let ?g = "\<lambda>b. 1 / 2 * mass b * dot (vel b) (vel b)"
  have "kinetic_energy bodies = sum_list (map ?g bodies)"
    by (simp add: kinetic_energy_def fold_add_sum_list)
  also have "\<dots> = (\<Sum>i\<in>{0..<length bodies}. map ?g bodies ! i)"
    using sum_list_sum_nth[of "map ?g bodies"] by simp
  also have "\<dots> = (\<Sum>i\<in>{0..<length bodies}. ?g (bodies ! i))"
    by (intro sum.cong) simp_all
  finally show ?thesis .
qed

lemma total_energy_closed:
  "total_energy bodies =
     Inr ((\<Sum>i\<in>{0..<length bodies}. 1 / 2 * mass (bodies ! i) * dot (vel (bodies ! i)) (vel (bodies ! i)))
          - (\<Sum>i\<in>{0..<length bodies}. \<Sum>j\<in>{Suc i..<length bodies}. pot_term bodies (i, j)))"
  by (simp add: total_energy_def Let_def potential_energy_closed kinetic_energy_closed bind_fault_def)

lemma bind_fault_simps:
  "bind_fault (Inr x) f = f x"
  "bind_fault (Inl err) f = Inl err"
  by (simp_all add: bind_fault_def)

lemma math_atan2_bounds: "- pi < math_atan2 y x \<and> math_atan2 y x \<le> pi"
proof -
  have a: "- (pi / 2) < arctan (y / x)" "arctan (y / x) < pi / 2"
    by (rule arctan_lbound, rule arctan_ubound)
  have "0 \<le> y \<Longrightarrow> x < 0 \<Longrightarrow> arctan (y / x) \<le> 0"
    by (simp add: divide_nonneg_neg arctan_le_zero_iff)
  moreover have "y < 0 \<Longrightarrow> x < 0 \<Longrightarrow> 0 < arctan (y / x)"
    by (simp add: divide_neg_neg arctan_less_zero_iff zero_less_arctan_iff)
  ultimately show ?thesis
    using a pi_gt_zero by (auto simp: math_atan2_def)
qed

lemma half_angle_atan2:
  "2 * math_atan2_ext (math_tan (math_atan2 y x / 2)) 1 = math_atan2 y x"
proof (cases "math_atan2 y x = pi")
  case True
  then show ?thesis by (simp add: math_tan_def math_atan2_ext_def)
next
  case False
  with math_atan2_bounds[of y x]
  have b: "- (pi / 2) < math_atan2 y x / 2" "math_atan2 y x / 2 < pi / 2"
    by simp_all
  then have "0 < cos (math_atan2 y x / 2)" by (rule cos_gt_zero_pi)
  then have "math_tan (math_atan2 y x / 2) = Finite_tan (tan (math_atan2 y x / 2))"
    by (simp add: math_tan_def)
  then show ?thesis
    using b by (simp add: math_atan2_ext_def math_atan2_def[of _ 1] arctan_tan)
qed

lemma norm3_sq: "(norm3 v)\<^sup>2 = dot v v"
  by (simp add: norm3_def dot_self_nonneg)

lemma x_cos_less_sin:
  assumes "0 < x" "x \<le> pi"
  shows "x * cos x < sin x"
proof -
  let ?g = "\<lambda>t::real. sin t - t * cos t"
  have "?g 0 < ?g x"
  proof (rule DERIV_pos_imp_increasing_open[OF assms(1)])
    fix t :: real
    assume t: "0 < t" "t < x"
    have "DERIV ?g t :> t * sin t"
      by (auto intro!: derivative_eq_intros)
    moreover have "0 < t * sin t"
      using t assms(2) by (intro mult_pos_pos sin_gt_zero) simp_all
    ultimately show "\<exists>y. DERIV ?g t :> y \<and> 0 < y" by blast
  next
    show "continuous_on {0..x} ?g"
      by (intro continuous_intros)
  qed
  then show ?thesis by simp
qed

lemma kepler_step_interval:
  assumes E: "0 < E" "E \<le> pi" and e: "0 < e" "e < 1"
  shows "0 < 1 - e * cos E"
    and "0 < E + - (E - e * sin E - 0) / (1 - e * cos E)"
    and "E + - (E - e * sin E - 0) / (1 - e * cos E) \<le> pi"
proof -
  have c: "e * cos E \<le> e" using e by (simp add: mult_left_le)
  then show d: "0 < 1 - e * cos E" using e by linarith
  have s0: "0 \<le> sin E" using E by (intro sin_ge_zero) simp_all
  have "sin E \<le> E" using E by (intro sin_x_le_x) simp
  moreover have "e * sin E \<le> sin E" using e s0 by (simp add: mult_left_le_one_le)
  ultimately have f: "0 \<le> E - e * sin E" by linarith
  have "E + - (E - e * sin E - 0) / (1 - e * cos E) = e * (sin E - E * cos E) / (1 - e * cos E)"
    using d by (simp add: field_simps)
  moreover have "0 < e * (sin E - E * cos E) / (1 - e * cos E)"
    using x_cos_less_sin[OF E] e d by simp
  ultimately show "0 < E + - (E - e * sin E - 0) / (1 - e * cos E)" by simp
  have "0 \<le> (E - e * sin E) / (1 - e * cos E)" using f d by simp
  moreover have "- (E - e * sin E - 0) / (1 - e * cos E) = - ((E - e * sin E) / (1 - e * cos E))"
    by (simp only: diff_zero minus_divide_left)
  ultimately show "E + - (E - e * sin E - 0) / (1 - e * cos E) \<le> pi" using E by linarith
qed

lemma kepler_loop_from_pi:
  assumes e: "0 < e" "e < 1"
  shows "0 < E \<Longrightarrow> E \<le> pi \<Longrightarrow> \<exists>E'. kepler_loop k 0 e tol E = Inr E' \<and> 0 < E' \<and> E' \<le> pi"
proof (induction k arbitrary: E)
  case 0
  then show ?case by simp
next
  case (Suc k)
  note st = kepler_step_interval[OF Suc.prems e]
  let ?E' = "E + - (E - e * sin E - 0) / (1 - e * cos E)"
  have ne: "(1 - e * cos E = 0) = False" using st(1) by simp
  have "np_divide (- (E - e * sin E - 0)) (1 - e * cos E) = Inr (- (E - e * sin E - 0) / (1 - e * cos E))"
    by (simp only: np_divide_def ne if_False)
  then have "kepler_loop (Suc k) 0 e tol E =
        (if \<bar>- (E - e * sin E - 0) / (1 - e * cos E)\<bar> < tol then Inr ?E' else kepler_loop k 0 e tol ?E')"
    by (simp only: kepler_loop.simps Let_def bind_fault_simps)
  moreover obtain E'' where "kepler_loop k 0 e tol ?E' = Inr E''" "0 < E''" "E'' \<le> pi"
    using Suc.IH[OF st(2) st(3)] by blast
  ultimately show ?case using st(2) st(3)
    by (cases "\<bar>- (E - e * sin E - 0) / (1 - e * cos E)\<bar> < tol") (simp_all only: if_True if_False, blast+)
qed

lemma newton_loop_fixed:
  "kepler E M e = 0 \<Longrightarrow> kepler_prime E e \<noteq> 0 \<Longrightarrow> newton_loop k M e E = Inr E"
  by (induction k) (simp_all add: np_divide_def bind_fault_simps)

lemma newton_loop_no_exception:
  "newton_loop k M e E \<noteq> Inl IndexError \<and> newton_loop k M e E \<noteq> Inl ZeroDivisionError
   \<and> newton_loop k M e E \<noteq> Inl ValueError"
  by (induction k arbitrary: E) (simp_all add: np_divide_def bind_fault_simps)

lemma solve_kepler_seed_pi: "solve_kepler 0 (9 / 10) tol max_iter \<noteq> Inr 0"
proof -
  have "solve_kepler 0 (9 / 10) tol max_iter = kepler_loop max_iter 0 (9 / 10) tol pi"
    by (simp add: solve_kepler_def np_mod_def Let_def)
  moreover obtain E' where "kepler_loop max_iter 0 (9 / 10) tol pi = Inr E'" "0 < E'"
    using kepler_loop_from_pi[of "9 / 10" pi max_iter tol] by auto
  ultimately show ?thesis by auto
qed

lemma newton_loop_10_0: "newton_loop 10 0 (9 / 10) 0 = Inr 0"
  by (rule newton_loop_fixed) (simp_all add: kepler_def kepler_prime_def)

section \<open>The claims\<close>

text \<open>
  Claim C1. For every body list, timestep and relativity flag, \<open>step_system\<close> is the
  half kick with the stored accelerations, then the drift with the half-kicked velocities,
  then \<open>compute_accelerations\<close> at the new positions followed by the post-Newtonian
  correction exactly when the flag is set, then the second half kick. The bodies it leaves
  have \<open>pos' = pos + (v + 1/2 a dt) dt\<close>, \<open>v' = v + 1/2 (a + a') dt\<close> and \<open>acc' = a'\<close>,
  where \<open>a'\<close> is the acceleration at the new positions. The call raises nothing, except
  IndexError on the empty list with the flag set (from \<open>bodies[0]\<close> in the correction),
  where there is no body to update.
\<close>

theorem step_system_velocity_verlet:
  "step_system bodies dt use_relativity =
     (if use_relativity \<and> bodies = [] then Some IndexError else None,
      half_kick dt (new_accelerations use_relativity (drift dt (half_kick dt bodies))))
   \<and> snd (step_system bodies dt use_relativity) =
     (let moved = drift dt (half_kick dt bodies);
          a' = (\<lambda>i. acc (new_accelerations use_relativity moved ! i))
      in map (\<lambda>i. (bodies ! i)\<lparr>
                 vel := vel (bodies ! i) + smult (1 / 2 * dt) (acc (bodies ! i) + a' i),
                 pos := pos (bodies ! i) + smult dt (vel (bodies ! i) + smult (1 / 2 * dt) (acc (bodies ! i))),
                 acc := a' i\<rparr>) [0..<length bodies])
   \<and> map pos (drift dt (half_kick dt bodies)) =
       map (\<lambda>b. pos b + smult dt (vel b + smult (1 / 2 * dt) (acc b))) bodies"
proof (intro conjI)
  show "map pos (drift dt (half_kick dt bodies)) =
       map (\<lambda>b. pos b + smult dt (vel b + smult (1 / 2 * dt) (acc b))) bodies"
    by (simp add: drift_def half_kick_def comp_def smult_simps mult.commute)
qed (rule step_system_order, rule step_closed)

text \<open>
  Claim C2. After \<open>compute_accelerations\<close> the acceleration of body \<open>i\<close> is the sum over
  all \<open>j \<noteq> i\<close> of \<open>G m\<^sub>j (pos\<^sub>j - pos\<^sub>i) / (|pos\<^sub>j - pos\<^sub>i|\<^sup>2 + \<epsilon>\<^sup>2)\<^bsup>3/2\<^esup>\<close>, every other
  field is as before, and the accelerations stored before the call have no influence:
  replacing them by any values \<open>old i\<close> gives the same result.
\<close>

theorem compute_accelerations_newtonian_sum:
  "compute_accelerations bodies =
     map (\<lambda>i. (bodies ! i)\<lparr>acc := newtonian_accel bodies i\<rparr>) [0..<length bodies]
   \<and> compute_accelerations (map (\<lambda>i. (bodies ! i)\<lparr>acc := old i\<rparr>) [0..<length bodies]) =
     compute_accelerations bodies"
proof
  show "compute_accelerations bodies =
     map (\<lambda>i. (bodies ! i)\<lparr>acc := newtonian_accel bodies i\<rparr>) [0..<length bodies]"
    by (rule compute_accelerations_closed)
next
  let ?bs = "map (\<lambda>i. (bodies ! i)\<lparr>acc := old i\<rparr>) [0..<length bodies]"
  have "newtonian_accel ?bs i = newtonian_accel bodies i" if "i < length bodies" for i
    by (rule newtonian_accel_cong) (use that in simp_all)
  then show "compute_accelerations ?bs = compute_accelerations bodies"
    unfolding compute_accelerations_closed by (intro nth_equalityI) simp_all
qed

text \<open>
  Claim C5. On a list with at least one body, \<open>compute_pn_accelerations\<close> returns normally;
  it leaves \<open>bodies[0]\<close> as it is, and adds to the acceleration of each later body the term
  \<open>(G M / (c\<^sup>2 r\<^sup>3)) ((4 G M / r - v\<^sup>2) r_vec + 4 (r_vec \<cdot> v_vec) v_vec)\<close>, taken relative to
  \<open>bodies[0]\<close> with the softened \<open>r\<close>, changing no other field.
\<close>

theorem compute_pn_accelerations_adds_term:
  "compute_pn_accelerations (sun # rest) =
     Inr (sun # map (\<lambda>b. b\<lparr>acc := acc b + pn_term sun b\<rparr>) rest)"
  by (simp add: compute_pn_accelerations_def pn_correction_def pn_term_def Let_def)

text \<open>
  Claim C6, in exact arithmetic. For two bodies, \<open>compute_accelerations\<close> gives
  \<open>m\<^sub>i a\<^sub>i = - m\<^sub>j a\<^sub>j\<close>; and in any list, the two contributions that the visit of a pair
  \<open>i, j\<close> adds satisfy \<open>m\<^sub>i \<Delta>a\<^sub>i = - m\<^sub>j \<Delta>a\<^sub>j\<close>.
\<close>

theorem newton_third_law:
  "smult (mass bi) (acc (compute_accelerations [bi, bj] ! 0)) =
     - smult (mass bj) (acc (compute_accelerations [bi, bj] ! 1))
   \<and> (i < length bodies \<and> j < length bodies \<and> i \<noteq> j \<longrightarrow>
      smult (mass (bodies ! i)) (acc (pair_update i j bodies ! i) - acc (bodies ! i)) =
        - smult (mass (bodies ! j)) (acc (pair_update i j bodies ! j) - acc (bodies ! j)))"
proof (intro conjI impI)
  have s0: "{..<Suc (Suc 0)} - {0} = {Suc 0}" by auto
  have s1: "{..<Suc (Suc 0)} - {Suc 0} = {0}" by auto
  have u: "[0..<2] = [0, 1]" by (simp add: upt_rec)
  have a0: "acc (compute_accelerations [bi, bj] ! 0) = newtonian_term bi bj"
    by (simp add: compute_accelerations_closed newtonian_accel_def s0 u)
  have a1: "acc (compute_accelerations [bi, bj] ! 1) = newtonian_term bj bi"
    by (simp add: compute_accelerations_closed newtonian_accel_def s1 u)
  show "smult (mass bi) (acc (compute_accelerations [bi, bj] ! 0)) =
     - smult (mass bj) (acc (compute_accelerations [bi, bj] ! 1))"
    unfolding a0 a1 by (rule newtonian_term_antisym)
next
  assume a: "i < length bodies \<and> j < length bodies \<and> i \<noteq> j"
  then have i: "i < length bodies" and j: "j < length bodies" and ne: "i \<noteq> j"
    by simp_all
  show "smult (mass (bodies ! i)) (acc (pair_update i j bodies ! i) - acc (bodies ! i)) =
        - smult (mass (bodies ! j)) (acc (pair_update i j bodies ! j) - acc (bodies ! j))"
    unfolding pair_delta[OF i j ne] by (rule newtonian_term_antisym)
qed

theorem newton_third_law_witness:
  "(0::nat) < length [test_sun, test_earth] \<and> (1::nat) < length [test_sun, test_earth] \<and> (0::nat) \<noteq> 1
   \<and> smult (mass test_sun) (acc (compute_accelerations [test_sun, test_earth] ! 0)) =
     - smult (mass test_earth) (acc (compute_accelerations [test_sun, test_earth] ! 1))
   \<and> smult (mass ([test_sun, test_earth] ! 0))
        (acc (pair_update 0 1 [test_sun, test_earth] ! 0) - acc ([test_sun, test_earth] ! 0)) =
     - smult (mass ([test_sun, test_earth] ! 1))
        (acc (pair_update 0 1 [test_sun, test_earth] ! 1) - acc ([test_sun, test_earth] ! 1))"
  using newton_third_law [of test_sun test_earth 0 "[test_sun, test_earth]" 1]
  by simp

text \<open>
  Claim C6, in binary64. The equality is not exact in the arithmetic the program runs in.
  On the test system the acceleration of the Sun is \<open>fl64 (inv * fl64 (G * m))\<close> and that of
  the Earth \<open>- fl64 (inv * G)\<close>, with \<open>m\<close> the mass of the Earth and \<open>inv\<close> the rounded
  \<open>1 / (dist2 * dist)\<close>: the two roundings fall differently, and \<open>m\<^sub>i a\<^sub>i\<close> is
  \<open>0.0001185536880481023\<close> while \<open>- m\<^sub>j a\<^sub>j\<close> is \<open>0.00011855368804810231\<close>, one unit in the
  last place apart, whether the two products are rounded or not.
\<close>

theorem newton_third_law_binary64_counterexample:
  "compute_accelerations_with fl64 G64 EPS_ACCEL64 [test_sun64, test_earth64] =
     [test_sun64\<lparr>acc := Vec3 (8747718169670968 / 2 ^ 66) 0 0\<rparr>,
      test_earth64\<lparr>acc := Vec3 (- (5556093337046616 / 2 ^ 47)) 0 0\<rparr>]
   \<and> smult_with fl64 (mass test_sun64)
         (acc (compute_accelerations_with fl64 G64 EPS_ACCEL64 [test_sun64, test_earth64] ! 0)) =
       Vec3 (8747718169670968 / 2 ^ 66) 0 0
   \<and> - smult_with fl64 (mass test_earth64)
         (acc (compute_accelerations_with fl64 G64 EPS_ACCEL64 [test_sun64, test_earth64] ! 1)) =
       Vec3 (8747718169670969 / 2 ^ 66) 0 0
   \<and> smult_with fl64 (mass test_sun64)
         (acc (compute_accelerations_with fl64 G64 EPS_ACCEL64 [test_sun64, test_earth64] ! 0)) \<noteq>
       - smult_with fl64 (mass test_earth64)
         (acc (compute_accelerations_with fl64 G64 EPS_ACCEL64 [test_sun64, test_earth64] ! 1))
   \<and> smult (mass test_sun64)
         (acc (compute_accelerations_with fl64 G64 EPS_ACCEL64 [test_sun64, test_earth64] ! 0)) \<noteq>
       - smult (mass test_earth64)
         (acc (compute_accelerations_with fl64 G64 EPS_ACCEL64 [test_sun64, test_earth64] ! 1))"
proof -
  let ?bs = "compute_accelerations_with fl64 G64 EPS_ACCEL64 [test_sun64, test_earth64]"
  have m: "mass test_earth64 = 7090633274028772 / 2 ^ 71"
    using fl64_round[of "3003 / 1000000000" 71 7090633274028772]
    by (simp add: test_earth64_def)
  have s: "mass test_sun64 = 1" by (simp add: test_sun64_def fl64_one)
  have a0: "acc (?bs ! 0) = Vec3 (8747718169670968 / 2 ^ 66) 0 0"
    and a1: "acc (?bs ! 1) = Vec3 (- (5556093337046616 / 2 ^ 47)) 0 0"
    by (simp_all add: two_body_binary64)
  have A: "fl64 (8747718169670968 / 2 ^ 66) = 8747718169670968 / 2 ^ 66"
    using fl64_round[of "8747718169670968 / 2 ^ 66" 66 8747718169670968] by simp
  have C: "fl64 (7090633274028772 / 2 ^ 71 * - (5556093337046616 / 2 ^ 47)) =
      - (8747718169670969 / 2 ^ 66)"
    using fl64_round[of "7090633274028772 / 2 ^ 71 * - (5556093337046616 / 2 ^ 47)" 66
        "- 8747718169670969"] by simp
  have l: "smult_with fl64 (mass test_sun64) (acc (?bs ! 0)) = Vec3 (8747718169670968 / 2 ^ 66) 0 0"
    unfolding a0 s using A by (simp add: smult_with_def fl64_zero)
  have r: "- smult_with fl64 (mass test_earth64) (acc (?bs ! 1)) = Vec3 (8747718169670969 / 2 ^ 66) 0 0"
    unfolding a1 m using C by (simp add: smult_with_def fl64_zero uminus_vec3_def)
  have ne: "smult_with fl64 (mass test_sun64) (acc (?bs ! 0)) \<noteq>
       - smult_with fl64 (mass test_earth64) (acc (?bs ! 1))"
    unfolding l r by simp
  have ne': "smult (mass test_sun64) (acc (?bs ! 0)) \<noteq> - smult (mass test_earth64) (acc (?bs ! 1))"
    unfolding a0 a1 m s by (simp add: smult_def uminus_vec3_def)
  show ?thesis using two_body_binary64 l r ne ne' by (intro conjI)
qed

text \<open>
  Claim C7. If the stored accelerations are the ones \<open>compute_accelerations\<close> gives at the
  current positions, then a step with \<open>dt\<close> followed by a step with \<open>- dt\<close>, correction off,
  restores every body (position, velocity and acceleration), and so do \<open>N\<close> steps with
  \<open>dt\<close> followed by \<open>N\<close> steps with \<open>- dt\<close>.
\<close>

theorem step_system_time_reversible:
  assumes "compute_accelerations bodies = bodies"
  shows "snd (step_system (snd (step_system bodies dt False)) (- dt) False) = bodies
       \<and> run_steps N (- dt) (run_steps N dt bodies) = bodies"
  using step_back[OF assms] run_steps_back[OF assms] by simp

theorem step_system_time_reversible_witness:
  "compute_accelerations (compute_accelerations [test_sun, test_earth]) =
     compute_accelerations [test_sun, test_earth]
   \<and> snd (step_system (snd (step_system (compute_accelerations [test_sun, test_earth]) (1 / 1000) False))
        (- (1 / 1000)) False) = compute_accelerations [test_sun, test_earth]
   \<and> run_steps 3 (- (1 / 1000)) (run_steps 3 (1 / 1000) (compute_accelerations [test_sun, test_earth])) =
     compute_accelerations [test_sun, test_earth]"
  using step_system_time_reversible [OF compute_accelerations_idem, of "[test_sun, test_earth]" "1 / 1000" 3]
    compute_accelerations_idem [of "[test_sun, test_earth]"]
  by simp

text \<open>
  Claim C8. When the bodies are at pairwise distinct positions, \<open>total_energy\<close> returns the
  sum over the bodies of \<open>1/2 m |v|\<^sup>2\<close> minus the sum over the pairs \<open>i < j\<close> of
  \<open>G m\<^sub>i m\<^sub>j / |pos\<^sub>i - pos\<^sub>j|\<close>, the distance taken without softening. The source
  function assigns to no field of a body, so its embedding is a function of the list alone.
\<close>

theorem total_energy_unsoftened:
  assumes "distinct (map pos bodies)"
  shows "total_energy bodies =
     Inr ((\<Sum>i\<in>{0..<length bodies}. 1 / 2 * mass (bodies ! i) * dot (vel (bodies ! i)) (vel (bodies ! i)))
          - (\<Sum>i\<in>{0..<length bodies}. \<Sum>j\<in>{Suc i..<length bodies}.
               G * mass (bodies ! i) * mass (bodies ! j) / norm3 (pos (bodies ! i) - pos (bodies ! j))))"
proof -
  have "pot_term bodies (i, j) =
        G * mass (bodies ! i) * mass (bodies ! j) / norm3 (pos (bodies ! i) - pos (bodies ! j))"
    if "i \<in> {0..<length bodies}" "j \<in> {Suc i..<length bodies}" for i j
  proof -
    have "i < length bodies" "j < length bodies" "i \<noteq> j"
      using that by auto
    then have "pos (bodies ! i) \<noteq> pos (bodies ! j)"
      using assms by (auto simp: distinct_conv_nth)
    then show ?thesis by (simp add: pot_term_def)
  qed
  then have "(\<Sum>i\<in>{0..<length bodies}. \<Sum>j\<in>{Suc i..<length bodies}. pot_term bodies (i, j)) =
        (\<Sum>i\<in>{0..<length bodies}. \<Sum>j\<in>{Suc i..<length bodies}.
               G * mass (bodies ! i) * mass (bodies ! j) / norm3 (pos (bodies ! i) - pos (bodies ! j)))"
    by (intro sum.cong refl) blast
  then show ?thesis by (simp only: total_energy_closed)
qed

theorem total_energy_unsoftened_witness:
  "distinct (map pos [test_sun, test_earth])
   \<and> total_energy [test_sun, test_earth] = Inr (- (3003 / 1000000000 * G / 2))"
proof -
  have d: "distinct (map pos [test_sun, test_earth])"
    by (simp add: test_sun_def test_earth_def)
  have G0: "0 \<le> G" by (simp add: G_def)
  show ?thesis
    using total_energy_unsoftened [OF d] d G0
    by (simp add: test_sun_def test_earth_def dot_def norm3_def minus_vec3_def)
qed

text \<open>
  Claim C10. \<open>total_energy\<close> returns a number for every body list: a pair of bodies at the
  same position is skipped by the test \<open>dist > 0\<close> and adds nothing to the potential
  energy, and no division by zero takes place. For two bodies at one position the result is
  the kinetic energy alone.
\<close>

theorem total_energy_skips_coincident:
  "total_energy bodies =
     Inr ((\<Sum>i\<in>{0..<length bodies}. 1 / 2 * mass (bodies ! i) * dot (vel (bodies ! i)) (vel (bodies ! i)))
          - (\<Sum>i\<in>{0..<length bodies}. \<Sum>j\<in>{Suc i..<length bodies}.
               if pos (bodies ! i) = pos (bodies ! j) then 0
               else G * mass (bodies ! i) * mass (bodies ! j) / norm3 (pos (bodies ! i) - pos (bodies ! j))))
   \<and> total_energy [b1, b2\<lparr>pos := pos b1\<rparr>] =
     Inr (1 / 2 * mass b1 * dot (vel b1) (vel b1) + 1 / 2 * mass b2 * dot (vel b2) (vel b2))"
proof
  show "total_energy bodies =
     Inr ((\<Sum>i\<in>{0..<length bodies}. 1 / 2 * mass (bodies ! i) * dot (vel (bodies ! i)) (vel (bodies ! i)))
          - (\<Sum>i\<in>{0..<length bodies}. \<Sum>j\<in>{Suc i..<length bodies}.
               if pos (bodies ! i) = pos (bodies ! j) then 0
               else G * mass (bodies ! i) * mass (bodies ! j) / norm3 (pos (bodies ! i) - pos (bodies ! j))))"
    by (simp add: total_energy_closed pot_term_def cong: if_cong)
  show "total_energy [b1, b2\<lparr>pos := pos b1\<rparr>] =
     Inr (1 / 2 * mass b1 * dot (vel b1) (vel b1) + 1 / 2 * mass b2 * dot (vel b2) (vel b2))"
    by (simp add: total_energy_closed pot_term_def)
qed

text \<open>
  Claim C3. \<open>elements_to_state\<close> solves Kepler's equation with its own loop: ten Newton
  steps started at \<open>E = M\<close> whatever the eccentricity, with no tolerance test and no
  reduction of \<open>M\<close>; only \<open>solve_kepler\<close>, which it does not call, wraps \<open>M\<close>, starts at
  \<open>\<pi>\<close> for \<open>e \<ge> 0.8\<close> and stops on the tolerance. At \<open>e = 0.9\<close>, \<open>M = 0\<close> the loop of
  \<open>elements_to_state\<close> stays at its seed \<open>E = 0\<close> and the state is the periapsis, while
  \<open>solve_kepler\<close>, started at \<open>\<pi>\<close>, returns an anomaly other than \<open>0\<close>. At \<open>e = 0\<close>,
  \<open>M = 2\<pi>\<close> the loop keeps \<open>E = 2\<pi>\<close>, while \<open>solve_kepler\<close> returns the wrapped value
  \<open>0\<close>. The loop raises no exception: a zero divisor gives a non-finite value.
\<close>

theorem elements_to_state_own_newton_loop:
  "newton_loop 10 0 (9 / 10) 0 = Inr 0
   \<and> elements_to_state 1 (9 / 10) 0 0 0 0 G =
       Inr (Vec3 (1 / 10) 0 0, Vec3 0 (10 * sqrt G * sqrt (19 / 100)) 0)
   \<and> solve_kepler 0 (9 / 10) (1 / 10 ^ 10) 50 \<noteq> Inr 0
   \<and> newton_loop 10 (2 * pi) 0 (2 * pi) = Inr (2 * pi)
   \<and> solve_kepler (2 * pi) 0 (1 / 10 ^ 10) 50 = Inr 0
   \<and> newton_loop k M e E \<noteq> Inl IndexError
   \<and> newton_loop k M e E \<noteq> Inl ZeroDivisionError
   \<and> newton_loop k M e E \<noteq> Inl ValueError"
proof (intro conjI)
  show "newton_loop 10 0 (9 / 10) 0 = Inr 0"
    by (rule newton_loop_10_0)
  then show "elements_to_state 1 (9 / 10) 0 0 0 0 G =
       Inr (Vec3 (1 / 10) 0 0, Vec3 0 (10 * sqrt G * sqrt (19 / 100)) 0)"
    by (simp add: elements_to_state_def bind_fault_simps Let_def np_sqrt_def py_divide_def
        np_divide_def matvec_def dot_def power2_eq_square G_def)
  show "solve_kepler 0 (9 / 10) (1 / 10 ^ 10) 50 \<noteq> Inr 0"
    by (rule solve_kepler_seed_pi)
  show "newton_loop 10 (2 * pi) 0 (2 * pi) = Inr (2 * pi)"
    by (rule newton_loop_fixed) (simp_all add: kepler_def kepler_prime_def)
  have "kepler_loop (Suc k) 0 0 (1 / 10 ^ 10) 0 = Inr 0" for k
    by (simp add: Let_def np_divide_def bind_fault_simps)
  moreover have "(50::nat) = Suc 49" by simp
  ultimately have "kepler_loop 50 0 0 (1 / 10 ^ 10) 0 = Inr 0"
    by (simp only:)
  then show "solve_kepler (2 * pi) 0 (1 / 10 ^ 10) 50 = Inr 0"
    by (simp add: solve_kepler_def np_mod_def Let_def)
qed (simp_all add: newton_loop_no_exception)

text \<open>
  Claim C4. \<open>state_to_elements\<close> divides by the angular-momentum magnitude with no test:
  on a radial state (\<open>r\<close> and \<open>v\<close> parallel, \<open>h = 0\<close>) the first division,
  \<open>h[2] / hmag\<close>, is \<open>0 / 0\<close>. On a parabolic state (\<open>v\<^sup>2 = 2 \<mu> / r\<close>) the vis-viva
  divisor \<open>2/rmag - vmag**2/mu\<close> is zero, and so is \<open>1 - e\<close> after it. The only tests in
  the function are \<open>Nmag != 0\<close> and \<open>e > 1e-10\<close>.
\<close>

theorem state_to_elements_unguarded_division:
  "state_to_elements (Vec3 1 0 0) (Vec3 1 0 0) G = Inl NonFinite
   \<and> state_to_elements (Vec3 1 0 0) (Vec3 0 (sqrt (2 * G)) 0) G = Inl NonFinite"
proof
  show "state_to_elements (Vec3 1 0 0) (Vec3 1 0 0) G = Inl NonFinite"
    by (simp add: state_to_elements_def Let_def cross_def norm3_def dot_def np_divide_def
        bind_fault_simps)
  have G: "0 < G" by (simp add: G_def)
  have r: "norm3 (Vec3 1 0 0) = 1" by (simp add: norm3_def dot_def)
  have v: "norm3 (Vec3 0 (sqrt (2 * G)) 0) = sqrt (2 * G)"
    using G by (simp add: norm3_def dot_def)
  have h: "cross (Vec3 1 0 0) (Vec3 0 (sqrt (2 * G)) 0) = Vec3 0 0 (sqrt (2 * G))"
    by (simp add: cross_def)
  have hm: "norm3 (Vec3 0 0 (sqrt (2 * G))) = sqrt (2 * G)"
    using G by (simp add: norm3_def dot_def)
  have s: "0 < sqrt (2 * G)" using G by simp
  have v2: "(sqrt (2 * G))\<^sup>2 = 2 * G" using G by simp
  have i: "math_acos 1 = Inr 0" by (simp add: math_acos_def)
  show "state_to_elements (Vec3 1 0 0) (Vec3 0 (sqrt (2 * G)) 0) G = Inl NonFinite"
    using G s
    by (simp add: state_to_elements_def Let_def r v h hm v2 i np_divide_def py_divide_def
        bind_fault_simps del: real_sqrt_gt_0_iff)
qed

text \<open>
  Claim C9. For a circular, equatorial, prograde state (\<open>r\<close> and \<open>v\<close> in the plane
  \<open>z = 0\<close>, \<open>r \<cdot> v = 0\<close>, \<open>v\<^sup>2 = \<mu> / |r|\<close>, \<open>h\<^sub>z > 0\<close>) \<open>state_to_elements\<close> returns
  normally with \<open>a = |r|\<close>, \<open>e = 0\<close>, \<open>i = 0\<close>, \<open>\<Omega> = 0\<close>, \<open>\<omega> = 0\<close>, and the mean anomaly
  is the angle of the position in the equatorial plane, \<open>M = \<nu> = atan2(r[1], r[0])\<close>, from
  the fallback branch; on the negative x axis that is \<open>M = \<pi>\<close>.
\<close>

theorem state_to_elements_circular_equatorial:
  assumes mu: "0 < mu"
    and plane: "c2 r = 0" "c2 v = 0"
    and circular: "dot r v = 0" "dot v v = mu / norm3 r"
    and prograde: "0 < c0 r * c1 v - c1 r * c0 v"
  shows "state_to_elements r v mu = Inr (norm3 r, 0, 0, 0, 0, math_atan2 (c1 r) (c0 r))"
proof -
  define hz where "hz = c0 r * c1 v - c1 r * c0 v"
  have hz: "0 < hz" using prograde by (simp add: hz_def)
  have h: "cross r v = Vec3 0 0 hz"
    using plane by (simp add: cross_def hz_def)
  have hmag: "norm3 (Vec3 0 0 hz) = hz"
    using hz by (simp add: norm3_def dot_def)
  have N: "cross (Vec3 0 0 1) (Vec3 0 0 hz) = 0"
    by (simp add: cross_def zero_vec3_def)
  have n0: "norm3 0 = 0" by (simp add: norm3_def dot_def zero_vec3_def)
  have rne: "r \<noteq> 0"
  proof
    assume "r = 0"
    then have "hz = 0" by (simp add: hz_def zero_vec3_def)
    with hz show False by simp
  qed
  have rmag: "0 < norm3 r"
    using norm3_pos_iff[of r 0] rne by simp
  have i: "math_acos 1 = Inr 0" by (simp add: math_acos_def)
  have ev: "smult (1 / mu) (smult ((norm3 v)\<^sup>2 - mu / norm3 r) r - smult (dot r v) v) = 0"
    using circular by (simp add: norm3_sq smult_def zero_vec3_def minus_vec3_def)
  have v2: "(norm3 v)\<^sup>2 / mu = 1 / norm3 r"
    using circular mu rmag by (simp add: norm3_sq field_simps)
  have a: "2 / norm3 r - 1 / norm3 r = 1 / norm3 r"
    by (simp add: field_simps)
  have "state_to_elements r v mu =
          Inr (norm3 r, 0, 0, 0, 0, 2 * math_atan2_ext (math_tan (math_atan2 (c1 r) (c0 r) / 2)) 1)"
    using mu rmag hz
    by (simp add: state_to_elements_def Let_def h hmag N n0 i ev v2 a bind_fault_simps
        np_divide_def py_divide_def math_sqrt_def)
  then show ?thesis by (simp only: half_angle_atan2)
qed

theorem state_to_elements_circular_equatorial_witness:
  "(0::real) < G \<and> c2 (Vec3 1 0 0) = 0 \<and> c2 (Vec3 0 (sqrt G) 0) = 0
   \<and> dot (Vec3 1 0 0) (Vec3 0 (sqrt G) 0) = 0
   \<and> dot (Vec3 0 (sqrt G) 0) (Vec3 0 (sqrt G) 0) = G / norm3 (Vec3 1 0 0)
   \<and> 0 < c0 (Vec3 1 0 0) * c1 (Vec3 0 (sqrt G) 0) - c1 (Vec3 1 0 0) * c0 (Vec3 0 (sqrt G) 0)
   \<and> state_to_elements (Vec3 1 0 0) (Vec3 0 (sqrt G) 0) G = Inr (1, 0, 0, 0, 0, 0)
   \<and> (0::real) < 1 \<and> c2 (Vec3 (- 1) 0 0) = 0 \<and> c2 (Vec3 0 (- 1) 0) = 0
   \<and> dot (Vec3 (- 1) 0 0) (Vec3 0 (- 1) 0) = 0
   \<and> dot (Vec3 0 (- 1) 0) (Vec3 0 (- 1) 0) = 1 / norm3 (Vec3 (- 1) 0 0)
   \<and> 0 < c0 (Vec3 (- 1) 0 0) * c1 (Vec3 0 (- 1) 0) - c1 (Vec3 (- 1) 0 0) * c0 (Vec3 0 (- 1) 0)
   \<and> state_to_elements (Vec3 (- 1) 0 0) (Vec3 0 (- 1) 0) 1 = Inr (1, 0, 0, 0, 0, pi)"
proof -
  have G: "0 < G" by (simp add: G_def)
  have n: "norm3 (Vec3 1 0 0) = 1" by (simp add: norm3_def dot_def)
  have c: "dot (Vec3 0 (sqrt G) 0) (Vec3 0 (sqrt G) 0) = G / norm3 (Vec3 1 0 0)"
    using G by (simp add: n dot_def)
  have p: "0 < c0 (Vec3 1 0 0) * c1 (Vec3 0 (sqrt G) 0) - c1 (Vec3 1 0 0) * c0 (Vec3 0 (sqrt G) 0)"
    using G by simp
  have d: "dot (Vec3 1 0 0) (Vec3 0 (sqrt G) 0) = 0" by (simp add: dot_def)
  have first: "state_to_elements (Vec3 1 0 0) (Vec3 0 (sqrt G) 0) G = Inr (1, 0, 0, 0, 0, 0)"
    using state_to_elements_circular_equatorial [OF G _ _ d c p]
    by (simp add: n math_atan2_def)
  have n': "norm3 (Vec3 (- 1) 0 0) = 1" by (simp add: norm3_def dot_def)
  have c': "dot (Vec3 0 (- 1) 0) (Vec3 0 (- 1) 0) = 1 / norm3 (Vec3 (- 1) 0 0)"
    by (simp add: n' dot_def)
  have p': "0 < c0 (Vec3 (- 1) 0 0) * c1 (Vec3 0 (- 1) 0) - c1 (Vec3 (- 1) 0 0) * c0 (Vec3 0 (- 1) 0)"
    by simp
  have d': "dot (Vec3 (- 1) 0 0) (Vec3 0 (- 1) 0) = 0" by (simp add: dot_def)
  have second: "state_to_elements (Vec3 (- 1) 0 0) (Vec3 0 (- 1) 0) 1 = Inr (1, 0, 0, 0, 0, pi)"
    using state_to_elements_circular_equatorial [OF zero_less_one _ _ d' c' p']
    by (simp add: n' math_atan2_def)
  show ?thesis
    using G d c p first d' c' p' second by simp
qed

end
